theory Spec2Isabelle
  imports Complex_Main "HOL-Library.Sublist" "HOL-Library.Char_ord" "HOL-Library.List_Lexorder"
begin

section \<open>The program\<close>

subsection \<open>Strings\<close>

text \<open>
  A JavaScript string is a sequence of UTF-16 code units. The model covers the code units
  below 256 (the type \<^typ>\<open>char\<close>), read as Latin-1. On these, \<open>trim\<close>,
  \<open>toLowerCase\<close> and the regular expressions of \<^verbatim>\<open>lib/utils.ts\<close> are as defined
  below: the white space of \<open>String.prototype.trim\<close> below 256 is TAB, LF, VT, FF, CR,
  SPACE and NBSP, and the only letters with a lower-case partner are A-Z and the Latin-1
  capitals 0xC0-0xDE (0xD7, the multiplication sign, apart).
\<close>

definition is_ws :: "char \<Rightarrow> bool" where
  "is_ws c = (of_char c \<in> {9, 10, 11, 12, 13, 32, 160 :: nat})"

definition trim :: "string \<Rightarrow> string" where
  "trim s = rev (dropWhile is_ws (rev (dropWhile is_ws s)))"

definition is_upper :: "char \<Rightarrow> bool" where
  "is_upper c = (let n = (of_char c :: nat) in (65 \<le> n \<and> n \<le> 90) \<or> (192 \<le> n \<and> n \<le> 222 \<and> n \<noteq> 215))"

definition lower_char :: "char \<Rightarrow> char" where
  "lower_char c = (if is_upper c then char_of (of_char c + (32 :: nat)) else c)"

definition toLowerCase :: "string \<Rightarrow> string" where
  "toLowerCase s = map lower_char s"

text \<open>\<open>s.startsWith(p)\<close> is \<^const>\<open>prefix\<close>; a regular expression \<^verbatim>\<open>/^lit/i\<close> over an ASCII
  literal is a prefix test after lowering the ASCII letters of the subject (a code unit above
  127 never matches an ASCII letter case-insensitively).\<close>

definition ascii_lower :: "char \<Rightarrow> char" where
  "ascii_lower c = (let n = (of_char c :: nat) in if 65 \<le> n \<and> n \<le> 90 then char_of (n + 32) else c)"

definition prefix_ci :: "string \<Rightarrow> string \<Rightarrow> bool" where
  "prefix_ci lit s = prefix lit (map ascii_lower s)"

text \<open>Decimal rendering of a counter (\<^verbatim>\<open>`${counter}`\<close>) and \<open>Number.prototype.toString(36)\<close>
  of a non-negative integer.\<close>

definition digit_char :: "nat \<Rightarrow> char" where
  "digit_char d = ''0123456789abcdefghijklmnopqrstuvwxyz'' ! d"

function dec :: "nat \<Rightarrow> string" where
  "dec n = (if n < 10 then [digit_char n] else dec (n div 10) @ [digit_char (n mod 10)])"
  by pat_completeness auto
termination
  by (relation "measure (\<lambda>n. n)") auto

function toString36 :: "nat \<Rightarrow> string" where
  "toString36 n = (if n < 36 then [digit_char n] else toString36 (n div 36) @ [digit_char (n mod 36)])"
  by pat_completeness auto
termination
  by (relation "measure (\<lambda>n. n)") auto

declare dec.simps [simp del] toString36.simps [simp del]

subsection \<open>App records\<close>

datatype origin = Catalog | Custom

text \<open>\<open>LaunchpadApp\<close> of \<^verbatim>\<open>lib/types\<close>: the fields are strings, \<open>tags\<close> a list of strings.
  The field \<open>id\<close> is called \<open>appId\<close> here. \<open>origin\<close> may be missing on a record of the
  remote catalog (\<^verbatim>\<open>app.origin ?? "catalog"\<close>), hence the option.\<close>

record LaunchpadApp =
  appId :: string
  name :: string
  description :: string
  url :: string
  icon :: string
  tags :: "string list"
  origin :: "origin option"

subsection \<open>Identity resolver\<close>

text \<open>\<^verbatim>\<open>.replace(/[^a-z0-9]+/g, "-")\<close>: every maximal run of characters outside a-z, 0-9
  becomes one dash. \<^verbatim>\<open>.replace(/^-+|-+$/g, "")\<close>: the dashes at both ends go.\<close>

definition is_slug_char :: "char \<Rightarrow> bool" where
  "is_slug_char c = (let n = (of_char c :: nat) in (97 \<le> n \<and> n \<le> 122) \<or> (48 \<le> n \<and> n \<le> 57))"

function replace_runs :: "string \<Rightarrow> string" where
  "replace_runs [] = []"
| "replace_runs (c # cs) =
     (if is_slug_char c then c # replace_runs cs
      else CHR ''-'' # replace_runs (dropWhile (\<lambda>d. \<not> is_slug_char d) cs))"
  by pat_completeness auto
termination
  by (relation "measure length") (auto simp: less_Suc_eq_le length_dropWhile_le)

definition strip_dashes :: "string \<Rightarrow> string" where
  "strip_dashes s = rev (dropWhile (\<lambda>c. c = CHR ''-'') (rev (dropWhile (\<lambda>c. c = CHR ''-'') s)))"

text \<open>\<open>createSlugId\<close>. The first argument is the reading of \<open>Date.now()\<close> at the call.\<close>

definition createSlugId :: "nat \<Rightarrow> string \<Rightarrow> string \<Rightarrow> string" where
  "createSlugId now pfx nm =
     (let baseName = strip_dashes (replace_runs (toLowerCase nm));
          fallback = pfx @ ''-'' @ toString36 now
      in if baseName \<noteq> [] then pfx @ ''-'' @ baseName else fallback)"

text \<open>The \<^verbatim>\<open>while (seen.has(uniqueId))\<close> loop of \<open>ensureUniqueAppIds\<close>. The set \<open>seen\<close> is
  the list of the ids added so far.\<close>

definition suffixed :: "string \<Rightarrow> nat \<Rightarrow> string" where
  "suffixed baseId counter = baseId @ ''-'' @ dec counter"

function uniqueId_loop :: "string list \<Rightarrow> string \<Rightarrow> string \<Rightarrow> nat \<Rightarrow> string" where
  "uniqueId_loop seen baseId uniqueId counter =
     (if uniqueId \<in> set seen
      then uniqueId_loop seen baseId (suffixed baseId counter) (counter + 1)
      else uniqueId)"
  by pat_completeness auto

text \<open>\<open>ensureUniqueAppIds\<close>: \<^verbatim>\<open>apps.map\<close> with the set \<open>seen\<close> threaded through the
  calls of the callback. \<open>now i\<close> is the reading of \<open>Date.now()\<close> while the record at
  index \<open>i\<close> is processed (\<open>createSlugId\<close> is called only for a record with a blank
  id). \<^verbatim>\<open>typeof app.id === "string"\<close> holds by the type of the field.\<close>

fun ensureUniqueAppIds_from ::
  "(nat \<Rightarrow> nat) \<Rightarrow> nat \<Rightarrow> string list \<Rightarrow> LaunchpadApp list \<Rightarrow> LaunchpadApp list" where
  "ensureUniqueAppIds_from now i seen [] = []"
| "ensureUniqueAppIds_from now i seen (app # apps) =
     (let baseId =
            (if length (trim (appId app)) > 0 then trim (appId app)
             else createSlugId (now i) (if origin app = Some Custom then ''custom'' else ''app'')
                    (name app));
          uniqueId = uniqueId_loop seen baseId baseId 2
      in app\<lparr>appId := uniqueId\<rparr> # ensureUniqueAppIds_from now (i + 1) (uniqueId # seen) apps)"

definition ensureUniqueAppIds :: "(nat \<Rightarrow> nat) \<Rightarrow> LaunchpadApp list \<Rightarrow> LaunchpadApp list" where
  "ensureUniqueAppIds now apps = ensureUniqueAppIds_from now 0 [] apps"

subsection \<open>Record merger\<close>

text \<open>Modelled from the spec: \<open>sortAppsByName\<close> of \<^verbatim>\<open>lib/apps\<close> is not among the sources.
  The spec has it sort by name with a locale-aware, case-insensitive ordering, ties broken
  by the original order (a stable sort); \<open>collate\<close> maps a name to its sort key. This is the
  sort of the examples. The merge below takes its sort as a parameter, so what is proved of
  the merge holds for every sort.\<close>

definition sortAppsByName :: "(string \<Rightarrow> 'k::linorder) \<Rightarrow> LaunchpadApp list \<Rightarrow> LaunchpadApp list" where
  "sortAppsByName collate apps = sort_key (\<lambda>app. collate (name app)) apps"

text \<open>The \<open>catalogApps\<close> memo of \<open>useLaunchpadState\<close>, as a function of what it reads:
  the base catalog, the custom apps, the flag \<open>settings.hideDefaultApps\<close>, and the clock.
  \<open>sortApps\<close> stands for \<open>sortAppsByName\<close>.\<close>

definition catalogApps ::
  "(LaunchpadApp list \<Rightarrow> LaunchpadApp list) \<Rightarrow> (nat \<Rightarrow> nat) \<Rightarrow> LaunchpadApp list
     \<Rightarrow> LaunchpadApp list \<Rightarrow> bool \<Rightarrow> LaunchpadApp list" where
  "catalogApps sortApps now baseCatalog customApps hideDefaultApps =
     (let cataloguePart = (if hideDefaultApps then [] else baseCatalog);
          allApps = cataloguePart @ customApps;
          normalized = ensureUniqueAppIds now
            (map (\<lambda>app. app\<lparr>origin := Some (case origin app of None \<Rightarrow> Catalog | Some og \<Rightarrow> og)\<rparr>)
               allApps)
      in sortApps normalized)"

subsection \<open>JavaScript values\<close>

text \<open>A number is a finite double, an infinity or NaN. A finite double is modelled by the
  rational it denotes, and arithmetic on finite numbers is exact: the rounding of a result to
  the nearest double is not modelled, the overflow of a decimal literal to an infinity is.\<close>

datatype jsnum = Fin rat | PosInf | NegInf | NaN

text \<open>The values a parsed JSON document, a stored record or a form field can hold.
  An object is the list of its own properties, the binding in force first.\<close>

datatype jsval =
    JUndefined
  | JNull
  | JBool bool
  | JNum jsnum
  | JStr string
  | JArr "jsval list"
  | JObj "(string \<times> jsval) list"

datatype exn = TypeError

fun truthy :: "jsval \<Rightarrow> bool" where
  "truthy JUndefined = False"
| "truthy JNull = False"
| "truthy (JBool b) = b"
| "truthy (JNum n) = (n \<noteq> NaN \<and> n \<noteq> Fin 0)"
| "truthy (JStr s) = (s \<noteq> [])"
| "truthy (JArr xs) = True"
| "truthy (JObj kvs) = True"

text \<open>\<^verbatim>\<open>typeof v === "object"\<close>, and \<^verbatim>\<open>v ?? w\<close>.\<close>

fun is_object :: "jsval \<Rightarrow> bool" where
  "is_object JNull = True"
| "is_object (JArr xs) = True"
| "is_object (JObj kvs) = True"
| "is_object v = False"

fun nullish :: "jsval \<Rightarrow> bool" where
  "nullish JUndefined = True"
| "nullish JNull = True"
| "nullish v = False"

definition coalesce :: "jsval \<Rightarrow> jsval \<Rightarrow> jsval" where
  "coalesce v w = (if nullish v then w else v)"

text \<open>Reading a property by name. The names the code reads are data properties only; an
  array has none of them, and the code reads no property of a primitive value.\<close>

definition getp :: "(string \<times> jsval) list \<Rightarrow> string \<Rightarrow> jsval" where
  "getp kvs k = (case map_of kvs k of Some v \<Rightarrow> v | None \<Rightarrow> JUndefined)"

fun props :: "jsval \<Rightarrow> (string \<times> jsval) list" where
  "props (JObj kvs) = kvs"
| "props v = []"

subsubsection \<open>\<open>String(value)\<close> and \<open>Number.parseFloat\<close>\<close>

text \<open>\<open>String(v)\<close> raises a TypeError on an object that cannot be converted to a primitive
  value. For the values above that is an object with an own property \<open>toString\<close> (never a
  function here, so the conversion goes on to \<open>Object.prototype.valueOf\<close>, which returns
  the object itself), and an array with such an element (\<open>Array.prototype.join\<close> converts each
  element that is not \<open>null\<close> or \<open>undefined\<close>).\<close>

fun String_throws :: "jsval \<Rightarrow> bool" where
  "String_throws (JObj kvs) = (map_of kvs ''toString'' \<noteq> None)"
| "String_throws (JArr xs) = list_ex String_throws xs"
| "String_throws v = False"

text \<open>\<open>String(v)\<close> where it does not raise. The rendering of a number
  (\<open>Number::toString\<close>) is a parameter.\<close>

fun join_comma :: "string list \<Rightarrow> string" where
  "join_comma [] = []"
| "join_comma [s] = s"
| "join_comma (s # t # ss) = s @ '','' @ join_comma (t # ss)"

fun String_of :: "(jsnum \<Rightarrow> string) \<Rightarrow> jsval \<Rightarrow> string" where
  "String_of numstr JUndefined = ''undefined''"
| "String_of numstr JNull = ''null''"
| "String_of numstr (JBool b) = (if b then ''true'' else ''false'')"
| "String_of numstr (JNum n) = numstr n"
| "String_of numstr (JStr s) = s"
| "String_of numstr (JArr xs) =
     join_comma (map (\<lambda>x. if nullish x then [] else String_of numstr x) xs)"
| "String_of numstr (JObj kvs) = ''[object Object]''"

text \<open>\<open>Number.parseFloat\<close> of a string: leading white space goes, then the longest prefix
  that is a decimal literal counts: a sign, then \<open>Infinity\<close>, or digits with an optional
  fraction and an optional exponent (used only when it has a digit). The value is the exact
  decimal: the host rounds it to the nearest double (so a literal a hair below a half can
  come out as the half, and a tiny one as zero), which is not modelled here. What is proved
  below of \<open>clampNumber\<close> and its callers holds whatever number the string is read as.\<close>

definition is_digit :: "char \<Rightarrow> bool" where
  "is_digit c = (let n = (of_char c :: nat) in 48 \<le> n \<and> n \<le> 57)"

definition digits_val :: "string \<Rightarrow> nat" where
  "digits_val ds = foldl (\<lambda>a c. 10 * a + (of_char c - 48)) 0 ds"

definition to_double :: "rat \<Rightarrow> jsnum" where
  "to_double q =
     (if \<bar>q\<bar> \<ge> 2 ^ 1024 - 2 ^ 970 then (if q > 0 then PosInf else NegInf) else Fin q)"

definition parse_exponent :: "string \<Rightarrow> int" where
  "parse_exponent s =
     (case s of
        [] \<Rightarrow> 0
      | c # r \<Rightarrow>
          if c = CHR ''e'' \<or> c = CHR ''E'' then
            (let (neg, ds) =
                   (case r of
                      [] \<Rightarrow> (False, [])
                    | d # r' \<Rightarrow> if d = CHR ''-'' then (True, r') else if d = CHR ''+'' then (False, r')
                                else (False, r));
                 ex = takeWhile is_digit ds
             in if ex = [] then 0 else if neg then - int (digits_val ex) else int (digits_val ex))
          else 0)"

definition parseFloat :: "string \<Rightarrow> jsnum" where
  "parseFloat s =
     (let t = dropWhile is_ws s;
          (neg, u) =
            (case t of
               [] \<Rightarrow> (False, [])
             | c # r \<Rightarrow> if c = CHR ''-'' then (True, r) else if c = CHR ''+'' then (False, r)
                         else (False, t))
      in if prefix ''Infinity'' u then (if neg then NegInf else PosInf)
         else
           (let ip = takeWhile is_digit u;
                r1 = dropWhile is_digit u;
                (fp, r2) =
                  (case r1 of
                     [] \<Rightarrow> ([], [])
                   | c # r \<Rightarrow> if c = CHR ''.'' then (takeWhile is_digit r, dropWhile is_digit r)
                               else ([], r1))
            in if ip = [] \<and> fp = [] then NaN
               else
                 (let m = of_nat (digits_val (ip @ fp)) / 10 ^ length fp;
                      ex = parse_exponent r2;
                      q = (if ex \<ge> 0 then m * 10 ^ nat ex else m / 10 ^ nat (- ex))
                  in to_double (if neg then - q else q))))"

text \<open>\<open>Number.parseFloat(String(v))\<close>, where \<open>String(v)\<close> does not raise. A number goes to its
  shortest decimal form and comes back as itself. An array goes to its elements joined by
  commas, of which only the first can be read.\<close>

fun parseFloat_String :: "jsval \<Rightarrow> jsnum" where
  "parseFloat_String (JNum n) = n"
| "parseFloat_String (JStr s) = parseFloat s"
| "parseFloat_String (JArr (x # xs)) = parseFloat_String x"
| "parseFloat_String v = NaN"

subsection \<open>Settings, user data and the constants\<close>

datatype bgtype = BgImage | BgColor

datatype layout = LayoutGrid | LayoutList

text \<open>\<open>LaunchpadSettings\<close> and \<open>LaunchpadUserData\<close> of \<^verbatim>\<open>lib/types\<close>. A field the code reads
  with \<^verbatim>\<open>??\<close> may be undefined (\<open>None\<close>). \<open>hasCompletedSetup\<close> is copied from the update
  as it comes (\<^verbatim>\<open>...partial\<close>), so it holds any value. Properties of an update that are
  no field of the settings are carried along by the code and play no part here.\<close>

record LaunchpadSettings =
  backgroundType :: bgtype
  backgroundColor :: string
  backgroundImage :: string
  overlayOpacity :: jsnum
  blurStrength :: jsnum
  glassTintColor :: string
  glassTintOpacity :: jsnum
  hideDefaultApps :: "bool option"
  mobileLayout :: "layout option"
  hasCompletedSetup :: jsval

record LaunchpadUserData =
  hiddenAppIds :: "string list"
  customApps :: "LaunchpadApp list"
  pageSize :: "jsnum option"

text \<open>What the \<open>URL\<close> constructor yields, as far as the code reads it: \<open>url.protocol\<close> and
  \<open>url.toString()\<close>.\<close>

record URL =
  protocol :: string
  href :: string

text \<open>The constants of \<^verbatim>\<open>lib/constants\<close> and \<^verbatim>\<open>lib/version\<close>, which are not among the
  sources, and the two functions of the host the code calls: \<^verbatim>\<open>new URL(s)\<close> (\<open>None\<close> when
  it throws) and the rendering of a number as a string. All are parameters.\<close>

record env =
  MIN_PAGE_SIZE :: int
  MAX_PAGE_SIZE :: int
  PAGE_SIZE_STEP :: int
  DEFAULT_PAGE_SIZE :: int
  DEFAULT_ICON :: string
  defaultSettings :: LaunchpadSettings
  defaultUserData :: LaunchpadUserData
  APP_VERSION :: string
  new_URL :: "string \<Rightarrow> URL option"
  Number_toString :: "jsnum \<Rightarrow> string"

subsection \<open>Validators\<close>

subsubsection \<open>Numbers\<close>

fun isFinite :: "jsnum \<Rightarrow> bool" where
  "isFinite (Fin q) = True"
| "isFinite n = False"

fun Math_max :: "jsnum \<Rightarrow> jsnum \<Rightarrow> jsnum" where
  "Math_max NaN b = NaN"
| "Math_max a NaN = NaN"
| "Math_max PosInf b = PosInf"
| "Math_max a PosInf = PosInf"
| "Math_max NegInf b = b"
| "Math_max a NegInf = a"
| "Math_max (Fin a) (Fin b) = Fin (max a b)"

fun Math_min :: "jsnum \<Rightarrow> jsnum \<Rightarrow> jsnum" where
  "Math_min NaN b = NaN"
| "Math_min a NaN = NaN"
| "Math_min NegInf b = NegInf"
| "Math_min a NegInf = NegInf"
| "Math_min PosInf b = b"
| "Math_min a PosInf = a"
| "Math_min (Fin a) (Fin b) = Fin (min a b)"

text \<open>\<open>Math.round\<close> rounds to the nearest integer, a tie upwards.\<close>

fun Math_round :: "jsnum \<Rightarrow> jsnum" where
  "Math_round (Fin q) = Fin (of_int \<lfloor>q + 1 / 2\<rfloor>)"
| "Math_round n = n"

text \<open>Division and multiplication by a finite constant above zero (\<open>PAGE_SIZE_STEP\<close>, where
  it is above 1).\<close>

fun js_div :: "jsnum \<Rightarrow> rat \<Rightarrow> jsnum" where
  "js_div (Fin q) c = Fin (q / c)"
| "js_div n c = n"

fun js_mul :: "jsnum \<Rightarrow> rat \<Rightarrow> jsnum" where
  "js_mul (Fin q) c = Fin (q * c)"
| "js_mul n c = n"

text \<open>\<open>clampNumber\<close>. Its bounds are numeric literals or constants at every call.\<close>

definition clampNumber :: "jsval \<Rightarrow> rat \<Rightarrow> rat \<Rightarrow> jsnum \<Rightarrow> exn + jsnum" where
  "clampNumber v lo hi fallback =
     (if String_throws v then Inl TypeError
      else (let numeric = parseFloat_String v
            in if \<not> isFinite numeric then Inr fallback
               else Inr (Math_min (Math_max numeric (Fin lo)) (Fin hi))))"

definition normalizePageSize :: "env \<Rightarrow> jsval \<Rightarrow> exn + jsnum" where
  "normalizePageSize E v =
     (let fallback = (case pageSize (defaultUserData E) of
                        Some n \<Rightarrow> n
                      | None \<Rightarrow> Fin (of_int (DEFAULT_PAGE_SIZE E)));
          lo = Fin (of_int (MIN_PAGE_SIZE E));
          hi = Fin (of_int (MAX_PAGE_SIZE E))
      in case clampNumber v (of_int (MIN_PAGE_SIZE E)) (of_int (MAX_PAGE_SIZE E)) fallback of
           Inl e \<Rightarrow> Inl e
         | Inr clamped \<Rightarrow>
             (let rounded = (if isFinite clamped then Math_round clamped else fallback)
              in if PAGE_SIZE_STEP E \<le> 1 then Inr (Math_min (Math_max rounded lo) hi)
                 else
                   (let stepped =
                          js_mul (Math_round (js_div rounded (of_int (PAGE_SIZE_STEP E))))
                            (of_int (PAGE_SIZE_STEP E))
                    in Inr (Math_min (Math_max stepped lo) hi))))"

subsubsection \<open>URLs, icons, tags\<close>

text \<open>\<^verbatim>\<open>/^[a-z][a-z0-9+\-.]*:/i\<close>: a letter, then letters, digits, plus, minus and dot up to a
  colon.\<close>

definition is_alpha :: "char \<Rightarrow> bool" where
  "is_alpha c = (let n = (of_char c :: nat) in (97 \<le> n \<and> n \<le> 122) \<or> (65 \<le> n \<and> n \<le> 90))"

definition is_scheme_char :: "char \<Rightarrow> bool" where
  "is_scheme_char c = (is_alpha c \<or> is_digit c \<or> c = CHR ''+'' \<or> c = CHR ''-'' \<or> c = CHR ''.'')"

definition has_scheme :: "string \<Rightarrow> bool" where
  "has_scheme s =
     (case s of
        [] \<Rightarrow> False
      | c # cs \<Rightarrow> is_alpha c \<and>
          (case dropWhile is_scheme_char cs of [] \<Rightarrow> False | d # r \<Rightarrow> d = CHR '':''))"

definition sanitizeHttpUrl :: "env \<Rightarrow> jsval \<Rightarrow> string" where
  "sanitizeHttpUrl E v =
     (case v of
        JStr s \<Rightarrow>
          (let trimmed = trim s
           in if trimmed = [] \<or> prefix_ci ''javascript:'' trimmed then []
              else
                (let candidate =
                       (if prefix ''//'' trimmed then ''https:'' @ trimmed
                        else if \<not> has_scheme trimmed then ''https://'' @ trimmed
                        else trimmed)
                 in case new_URL E candidate of
                      None \<Rightarrow> []
                    | Some u \<Rightarrow>
                        if protocol u \<noteq> ''http:'' \<and> protocol u \<noteq> ''https:'' then [] else href u))
      | _ \<Rightarrow> [])"

definition sanitizeIconSource :: "env \<Rightarrow> jsval \<Rightarrow> string" where
  "sanitizeIconSource E v =
     (case v of
        JStr s \<Rightarrow>
          (let trimmed = trim s
           in if trimmed = [] \<or> prefix_ci ''javascript:'' trimmed then DEFAULT_ICON E
              else if prefix_ci ''http://'' trimmed \<or> prefix_ci ''https://'' trimmed \<or>
                      prefix_ci ''data:image/'' trimmed \<or> prefix ''./'' trimmed \<or>
                      prefix ''/'' trimmed
              then trimmed
              else DEFAULT_ICON E)
      | _ \<Rightarrow> DEFAULT_ICON E)"

text \<open>\<open>sanitizeTagList\<close>: \<^verbatim>\<open>String(tag ?? "")\<close> raises on the first tag that cannot be
  converted.\<close>

definition sanitizeTagList :: "env \<Rightarrow> jsval \<Rightarrow> exn + string list" where
  "sanitizeTagList E v =
     (case v of
        JArr ts \<Rightarrow>
          if list_ex (\<lambda>t. String_throws (coalesce t (JStr []))) ts then Inl TypeError
          else Inr (filter (\<lambda>t. length t > 0)
                      (map (\<lambda>t. trim (String_of (Number_toString E) (coalesce t (JStr [])))) ts))
      | _ \<Rightarrow> Inr [])"

text \<open>\<open>value.split(",")\<close>.\<close>

fun split_comma :: "string \<Rightarrow> string list" where
  "split_comma [] = [[]]"
| "split_comma (c # cs) =
     (if c = CHR '','' then [] # split_comma cs
      else (case split_comma cs of [] \<Rightarrow> [[c]] | w # ws \<Rightarrow> (c # w) # ws))"

definition parseCustomTagString :: "string \<Rightarrow> string list" where
  "parseCustomTagString s = filter (\<lambda>t. length t > 0) (map trim (split_comma s))"

text \<open>\<open>sanitizeAppRecord\<close>. The url, the icon and the tags are computed before the check of
  the required fields, so a tag that cannot be converted raises whatever the name is.\<close>

definition str_field :: "(string \<times> jsval) list \<Rightarrow> string \<Rightarrow> string" where
  "str_field raw k = (case getp raw k of JStr s \<Rightarrow> trim s | _ \<Rightarrow> [])"

definition sanitizeAppRecord :: "env \<Rightarrow> jsval \<Rightarrow> origin \<Rightarrow> exn + LaunchpadApp option" where
  "sanitizeAppRecord E app og =
     (if \<not> truthy app \<or> \<not> is_object app then Inr None
      else
        (let raw = props app;
             nm = str_field raw ''name'';
             descr = str_field raw ''description'';
             u = sanitizeHttpUrl E (getp raw ''url'');
             ic = sanitizeIconSource E (getp raw ''icon'')
         in case sanitizeTagList E (getp raw ''tags'') of
              Inl e \<Rightarrow> Inl e
            | Inr tgs \<Rightarrow>
                (let i = str_field raw ''id''
                 in if og = Custom \<and> (nm = [] \<or> u = []) then Inr None
                    else Inr (Some \<lparr>appId = i,
                                    name = (if nm \<noteq> [] then nm else ''Untitled app''),
                                    description = descr, url = u, icon = ic, tags = tgs,
                                    origin = Some og\<rparr>))))"

subsubsection \<open>Hidden ids\<close>

text \<open>\<open>dedupeHiddenIds\<close>.\<close>

definition dedupeHiddenIds :: "jsval \<Rightarrow> LaunchpadApp list \<Rightarrow> string list" where
  "dedupeHiddenIds hiddenIds apps =
     (case hiddenIds of
        JArr ids \<Rightarrow>
          (let validIds = set (map appId apps)
           in filter (\<lambda>i. length i > 0 \<and> i \<in> validIds)
                (map (\<lambda>v. case v of JStr s \<Rightarrow> trim s | _ \<Rightarrow> []) ids))
      | _ \<Rightarrow> [])"

subsubsection \<open>Colours\<close>

definition is_hex_digit :: "char \<Rightarrow> bool" where
  "is_hex_digit c =
     (let n = (of_char c :: nat)
      in (48 \<le> n \<and> n \<le> 57) \<or> (97 \<le> n \<and> n \<le> 102) \<or> (65 \<le> n \<and> n \<le> 70))"

definition hex_val :: "char \<Rightarrow> nat" where
  "hex_val c =
     (let n = (of_char c :: nat)
      in if n \<le> 57 then n - 48 else if 97 \<le> n then n - 87 else n - 55)"

definition hex_digits_val :: "string \<Rightarrow> nat" where
  "hex_digits_val ds = foldl (\<lambda>a c. 16 * a + hex_val c) 0 ds"

text \<open>\<open>Number.parseInt(s, 16)\<close>: leading white space and a sign go, then an optional
  \<open>0x\<close>, then the longest run of hexadecimal digits counts; \<open>None\<close> is NaN.\<close>

definition parseInt16 :: "string \<Rightarrow> int option" where
  "parseInt16 s =
     (let t = dropWhile is_ws s;
          (neg, u) =
            (case t of
               [] \<Rightarrow> (False, [])
             | c # r \<Rightarrow> if c = CHR ''-'' then (True, r) else if c = CHR ''+'' then (False, r)
                         else (False, t));
          w = (if prefix ''0x'' u \<or> prefix ''0X'' u then drop 2 u else u);
          ds = takeWhile is_hex_digit w
      in if ds = [] then None
         else Some (if neg then - int (hex_digits_val ds) else int (hex_digits_val ds)))"

record RGB =
  rgb_r :: int
  rgb_g :: int
  rgb_b :: int

text \<open>\<open>hexToRgb\<close>. The parsed string has six characters, so the value is below \<open>2^24\<close>
  in size; on such a value \<^verbatim>\<open>>> 16\<close> is the floor of the division by \<open>2^16\<close> and
  \<^verbatim>\<open>& 255\<close> the remainder modulo 256, also when it is negative.\<close>

definition hexToRgb :: "jsval \<Rightarrow> RGB option" where
  "hexToRgb v =
     (case v of
        JStr hex \<Rightarrow>
          (let trimmed = trim hex
           in if trimmed = [] then None
              else
                (let withoutHash = (if prefix ''#'' trimmed then drop 1 trimmed else trimmed);
                     normalized = (if length withoutHash = 3
                                   then concat (map (\<lambda>c. [c, c]) withoutHash)
                                   else withoutHash)
                 in if length normalized \<noteq> 6 then None
                    else (case parseInt16 normalized of
                            None \<Rightarrow> None
                          | Some n \<Rightarrow>
                              Some \<lparr>rgb_r = (n div 65536) mod 256,
                                    rgb_g = (n div 256) mod 256,
                                    rgb_b = n mod 256\<rparr>)))
      | _ \<Rightarrow> None)"

function toString16 :: "nat \<Rightarrow> string" where
  "toString16 n = (if n < 16 then [digit_char n] else toString16 (n div 16) @ [digit_char (n mod 16)])"
  by pat_completeness auto
termination
  by (relation "measure (\<lambda>n. n)") auto

declare toString16.simps [simp del]

definition padStart2 :: "string \<Rightarrow> string" where
  "padStart2 s = replicate (2 - length s) CHR ''0'' @ s"

definition toHex :: "int \<Rightarrow> string" where
  "toHex component = padStart2 (toString16 (nat component))"

definition rgbToHex :: "RGB \<Rightarrow> string" where
  "rgbToHex rgb = ''#'' @ toHex (rgb_r rgb) @ toHex (rgb_g rgb) @ toHex (rgb_b rgb)"

definition resolveHexColor :: "jsval \<Rightarrow> string \<Rightarrow> string" where
  "resolveHexColor v fallback =
     (case hexToRgb v of
        Some rgb \<Rightarrow> rgbToHex rgb
      | None \<Rightarrow> (case hexToRgb (JStr fallback) of
                   Some fallbackRgb \<Rightarrow> rgbToHex fallbackRgb
                 | None \<Rightarrow> fallback))"

text \<open>\<^verbatim>\<open>/javascript:/i.test(s)\<close>: the literal stands somewhere in the string.\<close>

definition contains_ci :: "string \<Rightarrow> string \<Rightarrow> bool" where
  "contains_ci lit s = list_ex (prefix_ci lit) (suffixes s)"

definition sanitizeBackgroundImage :: "jsval \<Rightarrow> string" where
  "sanitizeBackgroundImage v =
     (case v of
        JStr s \<Rightarrow>
          (let trimmed = trim s
           in if trimmed = [] then []
              else if contains_ci ''javascript:'' trimmed then []
              else trimmed)
      | _ \<Rightarrow> [])"

subsection \<open>Settings reconciler\<close>

definition of_bool_opt :: "bool option \<Rightarrow> jsval" where
  "of_bool_opt b = (case b of None \<Rightarrow> JUndefined | Some x \<Rightarrow> JBool x)"

definition of_num_opt :: "jsnum option \<Rightarrow> jsval" where
  "of_num_opt n = (case n of None \<Rightarrow> JUndefined | Some x \<Rightarrow> JNum x)"

text \<open>\<open>updateSettingsFromForm\<close>. The update is an object; each \<open>clampNumber\<close> may raise.
  The bounds 0.6, 0.05 and 0.95 are written as the fractions 3/5, 1/20 and 19/20.\<close>

definition updateSettingsFromForm ::
  "env \<Rightarrow> LaunchpadSettings \<Rightarrow> (string \<times> jsval) list \<Rightarrow> exn + LaunchpadSettings" where
  "updateSettingsFromForm E base partial =
     (case clampNumber (getp partial ''overlayOpacity'') 0 (3 / 5)
             (overlayOpacity (defaultSettings E)) of
        Inl e \<Rightarrow> Inl e
      | Inr oo \<Rightarrow>
     (case clampNumber (getp partial ''blurStrength'') 0 20
             (blurStrength (defaultSettings E)) of
        Inl e \<Rightarrow> Inl e
      | Inr bs \<Rightarrow>
     (case clampNumber (getp partial ''glassTintOpacity'') (1 / 20) (19 / 20)
             (glassTintOpacity (defaultSettings E)) of
        Inl e \<Rightarrow> Inl e
      | Inr gto \<Rightarrow>
          Inr \<lparr>backgroundType =
                 (if getp partial ''backgroundType'' = JStr ''color'' then BgColor else BgImage),
               backgroundColor =
                 resolveHexColor (getp partial ''backgroundColor'')
                   (backgroundColor (defaultSettings E)),
               backgroundImage = sanitizeBackgroundImage (getp partial ''backgroundImage''),
               overlayOpacity = oo,
               blurStrength = bs,
               glassTintColor =
                 resolveHexColor (getp partial ''glassTintColor'')
                   (glassTintColor (defaultSettings E)),
               glassTintOpacity = gto,
               hideDefaultApps =
                 Some (truthy (coalesce (getp partial ''hideDefaultApps'')
                          (coalesce (of_bool_opt (hideDefaultApps base))
                             (of_bool_opt (hideDefaultApps (defaultSettings E)))))),
               mobileLayout =
                 (if getp partial ''mobileLayout'' = JStr ''list'' then Some LayoutList
                  else if getp partial ''mobileLayout'' = JStr ''grid'' then Some LayoutGrid
                  else (case mobileLayout base of
                          Some l \<Rightarrow> Some l
                        | None \<Rightarrow> mobileLayout (defaultSettings E))),
               hasCompletedSetup =
                 (case map_of partial ''hasCompletedSetup'' of
                    Some v \<Rightarrow> v
                  | None \<Rightarrow> hasCompletedSetup base)\<rparr>)))"

text \<open>\<open>mergeUserData\<close>. Of the update, \<open>hiddenAppIds\<close> and \<open>customApps\<close> count when they are
  arrays (\<open>Some\<close>); \<open>pageSize\<close> is any value.\<close>

record UserDataPartial =
  p_hiddenAppIds :: "string list option"
  p_customApps :: "LaunchpadApp list option"
  p_pageSize :: jsval

definition mergeUserData :: "env \<Rightarrow> LaunchpadUserData \<Rightarrow> UserDataPartial \<Rightarrow> exn + LaunchpadUserData" where
  "mergeUserData E base partial =
     (case normalizePageSize E
             (coalesce (p_pageSize partial)
                (coalesce (of_num_opt (pageSize base))
                   (of_num_opt (pageSize (defaultUserData E))))) of
        Inl e \<Rightarrow> Inl e
      | Inr n \<Rightarrow>
          Inr \<lparr>hiddenAppIds = (case p_hiddenAppIds partial of
                                Some h \<Rightarrow> h
                              | None \<Rightarrow> hiddenAppIds base),
               customApps = (case p_customApps partial of
                               Some c \<Rightarrow> c
                             | None \<Rightarrow> customApps base),
               pageSize = Some n\<rparr>)"

subsection \<open>The state of \<open>useLaunchpadState\<close>\<close>

text \<open>The part of the hook's state the claims are about: \<open>settings\<close>, \<open>userData\<close> and
  \<open>baseCatalog\<close>. Writing to storage, the modals, the page and the active index are left
  out. An action is a function from the state before to the state after; where the source
  passes an updater to \<open>setUserData\<close>, the function is that updater.\<close>

record lp_state =
  settings :: LaunchpadSettings
  userData :: LaunchpadUserData
  baseCatalog :: "LaunchpadApp list"

text \<open>How an action ends: it returns \<^verbatim>\<open>{ success, message }\<close>, or an exception leaves it.\<close>

datatype outcome = Returned bool string | Threw exn

definition merged ::
  "(LaunchpadApp list \<Rightarrow> LaunchpadApp list) \<Rightarrow> (nat \<Rightarrow> nat) \<Rightarrow> lp_state \<Rightarrow> LaunchpadApp list" where
  "merged sortApps now st =
     catalogApps sortApps now (baseCatalog st) (customApps (userData st))
       (hideDefaultApps (settings st) = Some True)"

subsubsection \<open>Hiding, showing and removing\<close>

text \<open>A JavaScript \<open>Set\<close> keeps the order of insertion: \<open>Set_from\<close> is \<^verbatim>\<open>new Set(xs)\<close> read
  back with \<open>Array.from\<close>.\<close>

definition Set_from :: "string list \<Rightarrow> string list" where
  "Set_from xs = rev (remdups (rev xs))"

definition Set_add :: "string list \<Rightarrow> string \<Rightarrow> string list" where
  "Set_add s x = (if x \<in> set s then s else s @ [x])"

definition Set_delete :: "string list \<Rightarrow> string \<Rightarrow> string list" where
  "Set_delete s x = removeAll x s"

text \<open>\<open>hideApp\<close> and \<open>showApp\<close>; \<open>apps\<close> is the merged collection \<open>catalogApps\<close> the
  callback closes over.\<close>

definition hideApp :: "LaunchpadApp list \<Rightarrow> string \<Rightarrow> LaunchpadUserData \<Rightarrow> LaunchpadUserData" where
  "hideApp apps anId prev =
     (if anId = [] then prev
      else
        (let hiddenSet = Set_add (Set_from (hiddenAppIds prev)) anId;
             deduped = dedupeHiddenIds (JArr (map JStr hiddenSet)) apps
         in prev\<lparr>hiddenAppIds := deduped\<rparr>))"

definition showApp :: "LaunchpadApp list \<Rightarrow> string \<Rightarrow> LaunchpadUserData \<Rightarrow> LaunchpadUserData" where
  "showApp apps anId prev =
     (if anId = [] then prev
      else
        (let hiddenSet = Set_delete (Set_from (hiddenAppIds prev)) anId;
             deduped = dedupeHiddenIds (JArr (map JStr hiddenSet)) apps
         in prev\<lparr>hiddenAppIds := deduped\<rparr>))"

definition removeCustomApp :: "string \<Rightarrow> LaunchpadUserData \<Rightarrow> LaunchpadUserData" where
  "removeCustomApp anId prev =
     prev\<lparr>customApps := filter (\<lambda>app. appId app \<noteq> anId) (customApps prev),
          hiddenAppIds := filter (\<lambda>i. i \<noteq> anId) (hiddenAppIds prev)\<rparr>"

subsubsection \<open>Adding and editing a custom app\<close>

record CustomAppInput =
  in_id :: "string option"
  in_name :: string
  in_url :: string
  in_description :: "string option"
  in_tagsInput :: "string option"
  in_iconChoice :: "string option"
  in_iconCustom :: "string option"

definition of_str_opt :: "string option \<Rightarrow> jsval" where
  "of_str_opt s = (case s of None \<Rightarrow> JUndefined | Some x \<Rightarrow> JStr x)"

text \<open>The updater \<open>submitCustomApp\<close> passes to \<open>setUserData\<close>, for the sanitized record
  \<open>baseApp\<close>. \<open>now\<close> is the reading of \<open>Date.now()\<close> in \<open>createSlugId\<close>.\<close>

definition previousId_of :: "CustomAppInput \<Rightarrow> LaunchpadApp \<Rightarrow> string" where
  "previousId_of input baseApp =
     (let t = (case in_id input of None \<Rightarrow> [] | Some i \<Rightarrow> trim i)
      in if t \<noteq> [] then t else appId baseApp)"

definition targetId_of :: "nat \<Rightarrow> LaunchpadApp list \<Rightarrow> CustomAppInput \<Rightarrow> LaunchpadApp \<Rightarrow> string" where
  "targetId_of now apps input baseApp =
     (let previousId = previousId_of input baseApp;
          ids = Set_from (map appId apps);
          reservedIds = (if previousId \<noteq> [] then Set_delete ids previousId else ids)
      in if previousId = [] then
           (let baseId = createSlugId now ''custom'' (name baseApp)
            in uniqueId_loop reservedIds baseId baseId 2)
         else trim previousId)"

definition saveCustomApp ::
  "nat \<Rightarrow> LaunchpadApp list \<Rightarrow> CustomAppInput \<Rightarrow> LaunchpadApp \<Rightarrow> LaunchpadUserData \<Rightarrow> LaunchpadUserData" where
  "saveCustomApp now apps input baseApp prev =
     (let previousId = previousId_of input baseApp;
          prepared = baseApp\<lparr>appId := targetId_of now apps input baseApp, origin := Some Custom\<rparr>;
          withoutPrevious =
            filter (\<lambda>app. appId app \<noteq> previousId \<and> appId app \<noteq> appId prepared) (customApps prev);
          updatedCustomApps = withoutPrevious @ [prepared];
          nextHiddenIds =
            filter (\<lambda>hiddenId. hiddenId \<noteq> previousId \<and> hiddenId \<noteq> appId prepared)
              (hiddenAppIds prev)
      in prev\<lparr>customApps := updatedCustomApps, hiddenAppIds := nextHiddenIds\<rparr>)"

definition submitCustomApp ::
  "env \<Rightarrow> nat \<Rightarrow> LaunchpadApp list \<Rightarrow> CustomAppInput \<Rightarrow> LaunchpadUserData
     \<Rightarrow> outcome \<times> LaunchpadUserData" where
  "submitCustomApp E now apps input prev =
     (let trimmedName = trim (in_name input)
      in if trimmedName = [] then (Returned False ''Please enter a name.'', prev)
         else
           (let sanitizedUrl = sanitizeHttpUrl E (JStr (in_url input))
            in if sanitizedUrl = [] then (Returned False ''Please enter a valid link.'', prev)
               else if in_iconChoice input = Some ''custom'' \<and>
                       trim (case in_iconCustom input of None \<Rightarrow> [] | Some c \<Rightarrow> c) = []
               then (Returned False ''Paste an icon URL or pick a preset.'', prev)
               else
                 (let ic =
                        (if in_iconChoice input = Some ''custom''
                         then sanitizeIconSource E
                                (JStr (case in_iconCustom input of None \<Rightarrow> [] | Some c \<Rightarrow> c))
                         else (case in_iconChoice input of
                                 Some choice \<Rightarrow> sanitizeIconSource E (JStr choice)
                               | None \<Rightarrow> DEFAULT_ICON E));
                      raw = JObj
                        [(''id'', of_str_opt (in_id input)),
                         (''name'', JStr trimmedName),
                         (''description'',
                            JStr (case in_description input of None \<Rightarrow> [] | Some d \<Rightarrow> trim d)),
                         (''url'', JStr sanitizedUrl),
                         (''icon'', JStr ic),
                         (''tags'',
                            JArr (map JStr
                              (case in_tagsInput input of
                                 None \<Rightarrow> []
                               | Some t \<Rightarrow> if t \<noteq> [] then parseCustomTagString t else [])))]
                  in case sanitizeAppRecord E raw Custom of
                       Inl e \<Rightarrow> (Threw e, prev)
                     | Inr None \<Rightarrow>
                         (Returned False
                            ''Unable to create the app. Please check the fields again.'', prev)
                     | Inr (Some baseApp) \<Rightarrow>
                         (Returned True
                            (if (case in_id input of None \<Rightarrow> False | Some i \<Rightarrow> i \<noteq> [])
                             then ''App updated successfully.''
                             else ''App saved successfully.''),
                          saveCustomApp now apps input baseApp prev))))"

subsubsection \<open>Saving the settings form\<close>

record SettingsFormInput =
  f_backgroundType :: bgtype
  f_backgroundImageChoice :: string
  f_backgroundImageCustom :: "string option"
  f_backgroundColor :: string
  f_overlayOpacity :: jsnum
  f_blurStrength :: jsnum
  f_glassTintColor :: string
  f_glassTintOpacity :: jsnum
  f_pageSize :: jsnum
  f_hideDefaultApps :: bool
  f_mobileLayout :: layout

definition of_bgtype :: "bgtype \<Rightarrow> jsval" where
  "of_bgtype t = (case t of BgImage \<Rightarrow> JStr ''image'' | BgColor \<Rightarrow> JStr ''color'')"

definition of_layout :: "layout \<Rightarrow> jsval" where
  "of_layout l = (case l of LayoutGrid \<Rightarrow> JStr ''grid'' | LayoutList \<Rightarrow> JStr ''list'')"

text \<open>\<open>submitSettings\<close>, with the \<^verbatim>\<open>closeSettings({ markCompleted: true })\<close> that ends it.\<close>

definition submitSettings :: "env \<Rightarrow> SettingsFormInput \<Rightarrow> lp_state \<Rightarrow> exn + lp_state" where
  "submitSettings E input st =
     (let bgImage =
            (if f_backgroundImageChoice input = ''custom''
             then (case f_backgroundImageCustom input of None \<Rightarrow> [] | Some c \<Rightarrow> c)
             else f_backgroundImageChoice input)
      in case updateSettingsFromForm E (settings st)
                [(''backgroundType'', of_bgtype (f_backgroundType input)),
                 (''backgroundImage'', JStr bgImage),
                 (''backgroundColor'', JStr (f_backgroundColor input)),
                 (''overlayOpacity'', JNum (f_overlayOpacity input)),
                 (''blurStrength'', JNum (f_blurStrength input)),
                 (''glassTintColor'', JStr (f_glassTintColor input)),
                 (''glassTintOpacity'', JNum (f_glassTintOpacity input)),
                 (''hasCompletedSetup'', JBool True),
                 (''hideDefaultApps'', JBool (f_hideDefaultApps input)),
                 (''mobileLayout'', of_layout (f_mobileLayout input))] of
           Inl e \<Rightarrow> Inl e
         | Inr nextSettings \<Rightarrow>
             (case normalizePageSize E (JNum (f_pageSize input)) of
                Inl e \<Rightarrow> Inl e
              | Inr nextPageSize \<Rightarrow>
                  Inr (st\<lparr>settings := nextSettings\<lparr>hasCompletedSetup := JBool True\<rparr>,
                          userData := (userData st)\<lparr>pageSize := Some nextPageSize\<rparr>\<rparr>)))"

subsection \<open>Backup codec\<close>

text \<open>The settings, a record and the user data as the objects they are in the program: this
  is how \<^verbatim>\<open>{ ...defaultSettings, ...incomingSettings }\<close> and the export payload see them.
  A field that is undefined is left out.\<close>

definition opt_prop :: "string \<Rightarrow> jsval \<Rightarrow> (string \<times> jsval) list" where
  "opt_prop k v = (if v = JUndefined then [] else [(k, v)])"

definition obj_of_settings :: "LaunchpadSettings \<Rightarrow> (string \<times> jsval) list" where
  "obj_of_settings s =
     [(''backgroundType'', of_bgtype (backgroundType s)),
      (''backgroundColor'', JStr (backgroundColor s)),
      (''backgroundImage'', JStr (backgroundImage s)),
      (''overlayOpacity'', JNum (overlayOpacity s)),
      (''blurStrength'', JNum (blurStrength s)),
      (''glassTintColor'', JStr (glassTintColor s)),
      (''glassTintOpacity'', JNum (glassTintOpacity s))]
     @ opt_prop ''hideDefaultApps'' (of_bool_opt (hideDefaultApps s))
     @ opt_prop ''mobileLayout'' (case mobileLayout s of None \<Rightarrow> JUndefined | Some l \<Rightarrow> of_layout l)
     @ opt_prop ''hasCompletedSetup'' (hasCompletedSetup s)"

definition obj_of_app :: "LaunchpadApp \<Rightarrow> jsval" where
  "obj_of_app a =
     JObj ([(''id'', JStr (appId a)),
            (''name'', JStr (name a)),
            (''description'', JStr (description a)),
            (''url'', JStr (url a)),
            (''icon'', JStr (icon a)),
            (''tags'', JArr (map JStr (tags a)))]
           @ opt_prop ''origin''
               (case origin a of
                  None \<Rightarrow> JUndefined
                | Some Catalog \<Rightarrow> JStr ''catalog''
                | Some Custom \<Rightarrow> JStr ''custom''))"

definition obj_of_userData :: "LaunchpadUserData \<Rightarrow> (string \<times> jsval) list" where
  "obj_of_userData u =
     [(''hiddenAppIds'', JArr (map JStr (hiddenAppIds u))),
      (''customApps'', JArr (map obj_of_app (customApps u)))]
     @ opt_prop ''pageSize'' (of_num_opt (pageSize u))"

text \<open>The payload \<open>exportBackup\<close> builds; \<open>generatedAt\<close> is the time stamp. Its serialization
  and the download are the host's.\<close>

definition BACKUP_SCHEMA_VERSION :: rat where
  "BACKUP_SCHEMA_VERSION = 1"

definition exportBackup_payload :: "env \<Rightarrow> string \<Rightarrow> lp_state \<Rightarrow> jsval" where
  "exportBackup_payload E generatedAt st =
     JObj [(''version'', JNum (Fin BACKUP_SCHEMA_VERSION)),
           (''appVersion'', JStr (APP_VERSION E)),
           (''generatedAt'', JStr generatedAt),
           (''settings'', JObj (obj_of_settings (settings st))),
           (''userData'', JObj (obj_of_userData (userData st)))]"

text \<open>\<^verbatim>\<open>customApps.map((entry) => sanitizeAppRecord(entry, "custom")).filter(Boolean)\<close>: the
  first entry that raises ends the map.\<close>

fun sanitize_entries :: "env \<Rightarrow> jsval list \<Rightarrow> exn + LaunchpadApp list" where
  "sanitize_entries E [] = Inr []"
| "sanitize_entries E (entry # entries) =
     (case sanitizeAppRecord E entry Custom of
        Inl e \<Rightarrow> Inl e
      | Inr r \<Rightarrow>
          (case sanitize_entries E entries of
             Inl e \<Rightarrow> Inl e
           | Inr rs \<Rightarrow> Inr (case r of None \<Rightarrow> rs | Some app \<Rightarrow> app # rs)))"

definition import_hiddenIds :: "jsval list \<Rightarrow> string list" where
  "import_hiddenIds ids =
     Set_from (filter (\<lambda>i. length i > 0) (map (\<lambda>v. case v of JStr s \<Rightarrow> trim s | _ \<Rightarrow> []) ids))"

text \<open>The two halves of \<open>importBackup\<close>. Each yields the new value when its key holds an
  object, \<open>None\<close> when it does not, or the exception.\<close>

definition import_settings :: "env \<Rightarrow> LaunchpadSettings \<Rightarrow> jsval \<Rightarrow> exn + LaunchpadSettings option" where
  "import_settings E current rawSettings =
     (if truthy rawSettings \<and> is_object rawSettings then
        (let incomingSettings = props rawSettings
         in case updateSettingsFromForm E (defaultSettings E)
                   (incomingSettings @ obj_of_settings (defaultSettings E)) of
              Inl e \<Rightarrow> Inl e
            | Inr sanitized \<Rightarrow>
                Inr (Some (sanitized\<lparr>hasCompletedSetup :=
                      (case getp incomingSettings ''hasCompletedSetup'' of
                         JBool b \<Rightarrow> JBool b
                       | _ \<Rightarrow> coalesce (hasCompletedSetup current) (hasCompletedSetup sanitized))\<rparr>)))
      else Inr None)"

definition import_userData :: "env \<Rightarrow> jsval \<Rightarrow> exn + LaunchpadUserData option" where
  "import_userData E rawUserData =
     (if truthy rawUserData \<and> is_object rawUserData then
        (let incomingUserData = props rawUserData
         in case (case getp incomingUserData ''customApps'' of
                    JArr entries \<Rightarrow> map_sum id Some (sanitize_entries E entries)
                  | _ \<Rightarrow> Inr None) of
              Inl e \<Rightarrow> Inl e
            | Inr sanitizedCustomApps \<Rightarrow>
                (let sanitizedHiddenIds =
                       (case getp incomingUserData ''hiddenAppIds'' of
                          JArr ids \<Rightarrow> Some (import_hiddenIds ids)
                        | _ \<Rightarrow> None)
                 in map_sum id Some
                      (mergeUserData E (defaultUserData E)
                         \<lparr>p_hiddenAppIds = sanitizedHiddenIds,
                          p_customApps = sanitizedCustomApps,
                          p_pageSize = getp incomingUserData ''pageSize''\<rparr>)))
      else Inr None)"

text \<open>\<open>importBackup\<close>. The settings are set (\<open>setSettings\<close>) before the user data are looked
  at, so an exception raised there leaves the new settings in place.\<close>

definition importBackup :: "env \<Rightarrow> lp_state \<Rightarrow> jsval \<Rightarrow> outcome \<times> lp_state" where
  "importBackup E st data =
     (if \<not> truthy data \<or> \<not> is_object data then (Returned False ''The backup file is invalid.'', st)
      else
        (let payload = props data;
             rawSettings = getp payload ''settings'';
             rawUserData = getp payload ''userData''
         in if \<not> truthy rawSettings \<and> \<not> truthy rawUserData
            then (Returned False ''The backup file is missing required data.'', st)
            else
              (case import_settings E (settings st) rawSettings of
                 Inl e \<Rightarrow> (Threw e, st)
               | Inr newSettings \<Rightarrow>
                   (let st1 = (case newSettings of None \<Rightarrow> st | Some s \<Rightarrow> st\<lparr>settings := s\<rparr>);
                        settingsUpdated = (newSettings \<noteq> None)
                    in case import_userData E rawUserData of
                         Inl e \<Rightarrow> (Threw e, st1)
                       | Inr newUserData \<Rightarrow>
                           (let st2 = (case newUserData of
                                         None \<Rightarrow> st1
                                       | Some u \<Rightarrow> st1\<lparr>userData := u\<rparr>);
                                userDataUpdated = (newUserData \<noteq> None)
                            in if \<not> settingsUpdated \<and> \<not> userDataUpdated
                               then (Returned False
                                       ''No changes were applied from the backup file.'', st2)
                               else (Returned True
                                       (if settingsUpdated \<and> userDataUpdated
                                        then ''Imported settings and app data successfully.''
                                        else if settingsUpdated
                                        then ''Imported settings successfully.''
                                        else ''Imported app data successfully.''), st2))))))"

subsection \<open>Reachable states\<close>

text \<open>The states the hook can be in. It starts from the defaults with an empty catalog; the
  catalog arrives from the fetch (\<open>setBaseCatalog\<close>); the other steps are the actions above,
  each run with the merged collection of the state it starts from. What the hook loads from
  storage when it starts is what an earlier session saved and is not a step here.\<close>

inductive reachable :: "(LaunchpadApp list \<Rightarrow> LaunchpadApp list) \<Rightarrow> env \<Rightarrow> lp_state \<Rightarrow> bool"
  for sortApps :: "LaunchpadApp list \<Rightarrow> LaunchpadApp list" and E :: env where
  initial:
    "reachable sortApps E
       \<lparr>settings = defaultSettings E, userData = defaultUserData E, baseCatalog = []\<rparr>"
| catalog_loaded:
    "reachable sortApps E st \<Longrightarrow> reachable sortApps E (st\<lparr>baseCatalog := catalog\<rparr>)"
| hide:
    "reachable sortApps E st \<Longrightarrow>
     reachable sortApps E (st\<lparr>userData := hideApp (merged sortApps now st) anId (userData st)\<rparr>)"
| unhide:
    "reachable sortApps E st \<Longrightarrow>
     reachable sortApps E (st\<lparr>userData := showApp (merged sortApps now st) anId (userData st)\<rparr>)"
| remove:
    "reachable sortApps E st \<Longrightarrow>
     reachable sortApps E (st\<lparr>userData := removeCustomApp anId (userData st)\<rparr>)"
| submit_app:
    "reachable sortApps E st \<Longrightarrow>
     submitCustomApp E t (merged sortApps now st) input (userData st) = (out, ud) \<Longrightarrow>
     reachable sortApps E (st\<lparr>userData := ud\<rparr>)"
| submit_settings:
    "reachable sortApps E st \<Longrightarrow> submitSettings E form st = Inr st' \<Longrightarrow>
     reachable sortApps E st'"
| import_backup:
    "reachable sortApps E st \<Longrightarrow> importBackup E st data = (out, st') \<Longrightarrow>
     reachable sortApps E st'"

section \<open>Predicates of the claims\<close>

text \<open>A record whose id does not depend on the clock: its id is not blank, or its name has a
  character that survives in the slug.\<close>

definition id_without_clock :: "LaunchpadApp \<Rightarrow> bool" where
  "id_without_clock app =
     (trim (appId app) \<noteq> [] \<or> strip_dashes (replace_runs (toLowerCase (name app))) \<noteq> [])"

text \<open>What the claims about page sizes need of the constants: the bounds are in order and
  multiples of the step, the step is at least 1, and the default page size is finite.\<close>

definition page_constants_ok :: "env \<Rightarrow> bool" where
  "page_constants_ok E =
     (MIN_PAGE_SIZE E \<le> MAX_PAGE_SIZE E \<and> 1 \<le> PAGE_SIZE_STEP E \<and>
      PAGE_SIZE_STEP E dvd MIN_PAGE_SIZE E \<and> PAGE_SIZE_STEP E dvd MAX_PAGE_SIZE E \<and>
      (case pageSize (defaultUserData E) of Some n \<Rightarrow> isFinite n | None \<Rightarrow> True))"

definition trimmed :: "string \<Rightarrow> bool" where
  "trimmed s = (s = [] \<or> (\<not> is_ws (hd s) \<and> \<not> is_ws (last s)))"

text \<open>A colour in normalized form: a hash and six hexadecimal digits in lower case.\<close>

definition is_lower_hex :: "char \<Rightarrow> bool" where
  "is_lower_hex c = (let n = (of_char c :: nat) in (48 \<le> n \<and> n \<le> 57) \<or> (97 \<le> n \<and> n \<le> 102))"

definition is_hex_color :: "string \<Rightarrow> bool" where
  "is_hex_color s = (length s = 7 \<and> hd s = CHR ''#'' \<and> list_all is_lower_hex (tl s))"

definition in_range :: "jsnum \<Rightarrow> rat \<Rightarrow> rat \<Rightarrow> bool" where
  "in_range n lo hi = (case n of Fin q \<Rightarrow> lo \<le> q \<and> q \<le> hi | _ \<Rightarrow> False)"

text \<open>The fields the spec bounds: the three numbers in their ranges, the two colours
  normalized, the mobile layout set.\<close>

definition valid_settings :: "LaunchpadSettings \<Rightarrow> bool" where
  "valid_settings s =
     (in_range (overlayOpacity s) 0 (3 / 5) \<and> in_range (blurStrength s) 0 20 \<and>
      in_range (glassTintOpacity s) (1 / 20) (19 / 20) \<and>
      is_hex_color (backgroundColor s) \<and> is_hex_color (glassTintColor s) \<and>
      mobileLayout s \<noteq> None)"

text \<open>Settings in canonical form: valid, the background image as \<open>sanitizeBackgroundImage\<close>
  leaves it, and the two flags set.\<close>

definition canonical_settings :: "LaunchpadSettings \<Rightarrow> bool" where
  "canonical_settings s =
     (valid_settings s \<and> trimmed (backgroundImage s) \<and>
      \<not> contains_ci ''javascript:'' (backgroundImage s) \<and>
      hideDefaultApps s \<noteq> None \<and>
      (case hasCompletedSetup s of JBool b \<Rightarrow> True | _ \<Rightarrow> False))"

definition is_page_size :: "env \<Rightarrow> jsnum \<Rightarrow> bool" where
  "is_page_size E n =
     (case n of
        Fin q \<Rightarrow> q = of_int \<lfloor>q\<rfloor> \<and> MIN_PAGE_SIZE E \<le> \<lfloor>q\<rfloor> \<and> \<lfloor>q\<rfloor> \<le> MAX_PAGE_SIZE E \<and>
                 PAGE_SIZE_STEP E dvd \<lfloor>q\<rfloor>
      | _ \<Rightarrow> False)"

text \<open>A URL in canonical form: it starts with \<open>http://\<close> or \<open>https://\<close>, and the
  constructor of the host gives it back as its own \<open>href\<close>, with one of the two protocols.\<close>

definition canonical_url :: "env \<Rightarrow> string \<Rightarrow> bool" where
  "canonical_url E u =
     ((prefix ''http://'' u \<or> prefix ''https://'' u) \<and> trimmed u \<and>
      (case new_URL E u of
         None \<Rightarrow> False
       | Some parsed \<Rightarrow> href parsed = u \<and> (protocol parsed = ''http:'' \<or> protocol parsed = ''https:'')))"

definition accepted_icon :: "string \<Rightarrow> bool" where
  "accepted_icon i =
     (prefix_ci ''http://'' i \<or> prefix_ci ''https://'' i \<or> prefix_ci ''data:image/'' i \<or>
      prefix ''./'' i \<or> prefix ''/'' i)"

definition canonical_icon :: "env \<Rightarrow> string \<Rightarrow> bool" where
  "canonical_icon E i =
     (i = DEFAULT_ICON E \<or>
      (trimmed i \<and> i \<noteq> [] \<and> \<not> prefix_ci ''javascript:'' i \<and> accepted_icon i))"

text \<open>A custom app as \<open>sanitizeAppRecord\<close> makes it.\<close>

definition canonical_app :: "env \<Rightarrow> LaunchpadApp \<Rightarrow> bool" where
  "canonical_app E a =
     (trimmed (appId a) \<and> trimmed (name a) \<and> name a \<noteq> [] \<and> trimmed (description a) \<and>
      canonical_url E (url a) \<and> canonical_icon E (icon a) \<and>
      list_all (\<lambda>t. trimmed t \<and> t \<noteq> []) (tags a) \<and> origin a = Some Custom)"

definition canonical_userData :: "env \<Rightarrow> LaunchpadUserData \<Rightarrow> bool" where
  "canonical_userData E u =
     (list_all (\<lambda>i. trimmed i \<and> i \<noteq> []) (hiddenAppIds u) \<and> distinct (hiddenAppIds u) \<and>
      list_all (canonical_app E) (customApps u) \<and>
      (case pageSize u of None \<Rightarrow> False | Some n \<Rightarrow> is_page_size E n))"

text \<open>A valid state: the settings are within their bounds and normalized, the hidden ids are
  trimmed, not empty and without duplicates, the custom apps are sanitized records, and the
  page size is a multiple of the step within its bounds.\<close>

definition valid_state :: "env \<Rightarrow> lp_state \<Rightarrow> bool" where
  "valid_state E st = (canonical_settings (settings st) \<and> canonical_userData E (userData st))"

definition env_ok :: "env \<Rightarrow> bool" where
  "env_ok E = (page_constants_ok E \<and> trimmed (DEFAULT_ICON E))"

section \<open>Example data\<close>

text \<open>Two catalog records named "Docs" (the scenario of the spec), and a custom record with a
  blank id whose name has no slug character.\<close>

definition docs :: LaunchpadApp where
  "docs = \<lparr>appId = '''', name = ''Docs'', description = '''', url = ''https://docs.example.com/'',
           icon = ''/icon.png'', tags = [], origin = None\<rparr>"

definition app0 :: LaunchpadApp where
  "app0 = \<lparr>appId = '''', name = ''!'', description = '''', url = ''https://example.com/'',
           icon = ''/icon.png'', tags = [], origin = Some Custom\<rparr>"

definition app_a :: LaunchpadApp where
  "app_a = \<lparr>appId = ''a'', name = ''A'', description = '''', url = ''https://a.example/'',
            icon = ''/a.png'', tags = [], origin = Some Catalog\<rparr>"

text \<open>An environment for the examples: the page-size bounds and step of the settings slider
  (14 to 56 in steps of 7), and a table of the answers of the \<open>URL\<close> constructor on the
  addresses the examples give it: three it parses, and \<open>https://exa mple.com\<close>, which it
  rejects for the space in the host. The table fails on every other address, which the
  constructor of the host does not; no example reads it there. No example renders a number as
  a string, so that rendering is left empty.\<close>

definition settings0 :: LaunchpadSettings where
  "settings0 = \<lparr>backgroundType = BgImage, backgroundColor = ''#0f172a'', backgroundImage = [],
                 overlayOpacity = Fin (2 / 5), blurStrength = Fin 8, glassTintColor = ''#0f172a'',
                 glassTintOpacity = Fin (2 / 5), hideDefaultApps = Some False,
                 mobileLayout = Some LayoutGrid, hasCompletedSetup = JBool False\<rparr>"

definition userData0 :: LaunchpadUserData where
  "userData0 = \<lparr>hiddenAppIds = [], customApps = [], pageSize = Some (Fin 28)\<rparr>"

definition URL0 :: "string \<Rightarrow> URL option" where
  "URL0 s =
     (if s = ''https://example.com'' \<or> s = ''https://example.com/''
      then Some \<lparr>protocol = ''https:'', href = ''https://example.com/''\<rparr>
      else if s = ''https://example.com/x''
      then Some \<lparr>protocol = ''https:'', href = ''https://example.com/x''\<rparr>
      else if s = ''ftp://example.com/''
      then Some \<lparr>protocol = ''ftp:'', href = ''ftp://example.com/''\<rparr>
      else None)"

definition E0 :: env where
  "E0 = \<lparr>MIN_PAGE_SIZE = 14, MAX_PAGE_SIZE = 56, PAGE_SIZE_STEP = 7, DEFAULT_PAGE_SIZE = 28,
          DEFAULT_ICON = ''/icons/default.svg'', defaultSettings = settings0,
          defaultUserData = userData0, APP_VERSION = ''1.0.0'', new_URL = URL0,
          Number_toString = (\<lambda>n. [])\<rparr>"

text \<open>An object with a property \<open>toString\<close>, as \<open>JSON.parse\<close> makes it of
  \<^verbatim>\<open>{"toString": 1}\<close>.\<close>

definition unprintable :: jsval where
  "unprintable = JObj [(''toString'', JNum (Fin 1))]"

definition hidden_docs :: LaunchpadUserData where
  "hidden_docs =
     \<lparr>hiddenAppIds = [''custom-docs''],
      customApps = [\<lparr>appId = ''custom-docs'', name = ''Docs'', description = '''',
                     url = ''https://example.com/'', icon = ''/icons/default.svg'', tags = [],
                     origin = Some Custom\<rparr>],
      pageSize = Some (Fin 28)\<rparr>"




text \<open>A state whose settings differ from the defaults, and a backup whose \<open>settings\<close> is an
  empty object and whose \<open>pageSize\<close> cannot be converted to a string.\<close>

definition customised :: lp_state where
  "customised =
     \<lparr>settings = settings0\<lparr>overlayOpacity := Fin (1 / 10), hasCompletedSetup := JBool True\<rparr>,
      userData = userData0, baseCatalog = []\<rparr>"

definition bad_backup :: jsval where
  "bad_backup = JObj [(''settings'', JObj []), (''userData'', JObj [(''pageSize'', unprintable)])]"

text \<open>The trace of the counterexample: the catalog arrives with one app, "Docs"; the user hides
  it; then the user saves the settings with "hide default apps" on.\<close>

definition init0 :: lp_state where
  "init0 = \<lparr>settings = settings0, userData = userData0, baseCatalog = []\<rparr>"

definition docs_loaded :: lp_state where
  "docs_loaded = init0\<lparr>baseCatalog := [docs]\<rparr>"

definition docs_hidden :: lp_state where
  "docs_hidden = docs_loaded\<lparr>userData := userData0\<lparr>hiddenAppIds := [''app-docs'']\<rparr>\<rparr>"

definition hide_defaults_form :: SettingsFormInput where
  "hide_defaults_form =
     \<lparr>f_backgroundType = BgImage, f_backgroundImageChoice = [], f_backgroundImageCustom = None,
      f_backgroundColor = ''#0f172a'', f_overlayOpacity = Fin (2 / 5), f_blurStrength = Fin 8,
      f_glassTintColor = ''#0f172a'', f_glassTintOpacity = Fin (2 / 5), f_pageSize = Fin 28,
      f_hideDefaultApps = True, f_mobileLayout = LayoutGrid\<rparr>"

definition stale_state :: lp_state where
  "stale_state =
     \<lparr>settings = settings0\<lparr>hideDefaultApps := Some True, hasCompletedSetup := JBool True\<rparr>,
      userData = userData0\<lparr>hiddenAppIds := [''app-docs'']\<rparr>,
      baseCatalog = [docs]\<rparr>"

text \<open>A valid state for the example: the default settings, one custom app, which is hidden,
  and one catalog app.\<close>

definition backup_state :: lp_state where
  "backup_state =
     \<lparr>settings = settings0\<lparr>hasCompletedSetup := JBool True\<rparr>, userData = hidden_docs,
      baseCatalog = [docs]\<rparr>"

section \<open>Properties\<close>

subsection \<open>Termination of the uniqueness loop\<close>

lemma digit_char_inj: "a < 10 \<Longrightarrow> b < 10 \<Longrightarrow> digit_char a = digit_char b \<Longrightarrow> a = b"
proof -
  have "\<forall>a<10. \<forall>b<10. digit_char a = digit_char b \<longrightarrow> a = b"
    unfolding digit_char_def by (simp add: All_less_Suc numeral_nat)
  then show "a < 10 \<Longrightarrow> b < 10 \<Longrightarrow> digit_char a = digit_char b \<Longrightarrow> a = b" by blast
qed

lemma dec_nonempty: "dec n \<noteq> []"
  by (subst dec.simps) simp

lemma dec_inj: "dec n = dec m \<Longrightarrow> n = m"
proof (induction n arbitrary: m rule: dec.induct)
  case (1 n)
  show ?case
  proof (cases "n < 10")
    case True
    with "1.prems" have m: "m < 10"
      by (subst (asm) dec.simps, subst (asm) (2) dec.simps) (auto simp: dec_nonempty dec_nonempty[symmetric] split: if_splits)
    with True "1.prems" show ?thesis
      by (subst (asm) dec.simps, subst (asm) (2) dec.simps) (auto dest: digit_char_inj)
  next
    case False
    with "1.prems" have m: "\<not> m < 10"
      by (subst (asm) dec.simps, subst (asm) (2) dec.simps) (auto simp: dec_nonempty dec_nonempty[symmetric] split: if_splits)
    with False "1.prems" have d: "dec (n div 10) = dec (m div 10)"
      and e: "digit_char (n mod 10) = digit_char (m mod 10)"
      by (subst (asm) dec.simps, subst (asm) (2) dec.simps, simp)+
    have "n div 10 = m div 10"
      using "1.IH"[OF False d] .
    moreover have "n mod 10 = m mod 10"
      using digit_char_inj[of "n mod 10" "m mod 10"] e by simp
    ultimately show ?thesis by (metis div_mult_mod_eq)
  qed
qed

lemma suffixed_inj: "suffixed b j = suffixed b k \<Longrightarrow> j = k"
  by (simp add: suffixed_def dec_inj)

lemma later_suffix_filter:
  assumes "suffixed b c \<in> set seen"
  shows "length (filter (\<lambda>s. \<exists>k>c. s = suffixed b k) seen) < length (filter (\<lambda>s. \<exists>k\<ge>c. s = suffixed b k) seen)"
proof -
  let ?P = "\<lambda>s. \<exists>k\<ge>c. s = suffixed b k"
  let ?Q = "\<lambda>s. \<exists>k>c. s = suffixed b k"
  have eq: "filter ?Q seen = filter ?Q (filter ?P seen)"
    unfolding filter_filter by (rule filter_cong) (auto intro: less_imp_le)
  have "suffixed b c \<in> set (filter ?P seen)" using assms by auto
  moreover have "\<not> ?Q (suffixed b c)" by (auto dest: suffixed_inj)
  ultimately have "length (filter ?Q (filter ?P seen)) < length (filter ?P seen)"
    by (rule length_filter_less)
  with eq show ?thesis by simp
qed

lemma later_suffix_filter_le:
  "length (filter (\<lambda>s. \<exists>k>c. s = suffixed b k) seen) \<le> length (filter (\<lambda>s. \<exists>k\<ge>(c::nat). s = suffixed b k) seen)"
proof -
  let ?P = "\<lambda>s. \<exists>k\<ge>c. s = suffixed b k"
  let ?Q = "\<lambda>s. \<exists>k>c. s = suffixed b k"
  have eq: "filter ?Q seen = filter ?Q (filter ?P seen)"
    unfolding filter_filter by (rule filter_cong) (auto intro: less_imp_le)
  show ?thesis by (subst eq) (rule length_filter_le)
qed

termination uniqueId_loop
proof (relation "measure (\<lambda>(seen, baseId, uniqueId, counter).
          length (filter (\<lambda>s. \<exists>k\<ge>counter. s = suffixed baseId k) seen)
          + (if uniqueId \<in> set seen then 1 else 0))", goal_cases)
  case 1
  show ?case by simp
next
  case (2 seen baseId uniqueId counter)
  have *: "(\<lambda>s. \<exists>k\<ge>counter + 1. s = suffixed baseId k) = (\<lambda>s. \<exists>k>counter. s = suffixed baseId k)"
    by (auto simp: Suc_le_eq)
  show ?case
    using 2 later_suffix_filter[of baseId counter seen] later_suffix_filter_le[of counter baseId seen]
    by (auto simp: * simp del: One_nat_def)
qed

lemma uniqueId_loop_fresh: "uniqueId_loop seen b u c \<notin> set seen"
  by (induction seen b u c rule: uniqueId_loop.induct) (subst uniqueId_loop.simps, simp)

subsection \<open>Unique ids\<close>

lemma ensureUniqueAppIds_from_ids:
  "distinct (map appId (ensureUniqueAppIds_from now i seen apps)) \<and>
   set (map appId (ensureUniqueAppIds_from now i seen apps)) \<inter> set seen = {}"
proof (induction apps arbitrary: i seen)
  case Nil
  show ?case by simp
next
  case (Cons app apps)
  define baseId where "baseId =
            (if length (trim (appId app)) > 0 then trim (appId app)
             else createSlugId (now i) (if origin app = Some Custom then ''custom'' else ''app'')
                    (name app))"
  define u where "u = uniqueId_loop seen baseId baseId 2"
  have fresh: "u \<notin> set seen" unfolding u_def by (rule uniqueId_loop_fresh)
  have step: "ensureUniqueAppIds_from now i seen (app # apps) =
      app\<lparr>appId := u\<rparr> # ensureUniqueAppIds_from now (i + 1) (u # seen) apps"
    by (simp add: Let_def u_def baseId_def)
  from Cons.IH[of "i + 1" "u # seen"] fresh show ?case
    unfolding step by auto
qed

lemma length_ensureUniqueAppIds_from:
  "length (ensureUniqueAppIds_from now i seen apps) = length apps"
  by (induction apps arbitrary: i seen) (simp_all add: Let_def)

text \<open>Claim C2: for every input list of app records (and every reading of the clock), the
  output of \<open>ensureUniqueAppIds\<close> has one record per input record and no two of its records
  have the same id.\<close>

theorem ensureUniqueAppIds_distinct:
  "distinct (map appId (ensureUniqueAppIds now apps)) \<and>
   length (ensureUniqueAppIds now apps) = length apps"
  using ensureUniqueAppIds_from_ids[of now 0 "[]" apps]
  by (simp add: ensureUniqueAppIds_def length_ensureUniqueAppIds_from)

subsection \<open>The merge and the clock\<close>

lemma id_without_clock_origin: "id_without_clock (app\<lparr>origin := og\<rparr>) = id_without_clock app"
  by (simp add: id_without_clock_def)

lemma createSlugId_clock:
  "strip_dashes (replace_runs (toLowerCase nm)) \<noteq> [] \<Longrightarrow> createSlugId t1 p nm = createSlugId t2 p nm"
  by (simp add: createSlugId_def Let_def)

lemma ensureUniqueAppIds_from_clock:
  "list_all id_without_clock apps \<Longrightarrow>
   ensureUniqueAppIds_from now1 i seen apps = ensureUniqueAppIds_from now2 i seen apps"
proof (induction apps arbitrary: i seen)
  case Nil
  show ?case by simp
next
  case (Cons app apps)
  then have "trim (appId app) \<noteq> [] \<or> strip_dashes (replace_runs (toLowerCase (name app))) \<noteq> []"
    by (simp add: id_without_clock_def)
  then have "(if length (trim (appId app)) > 0 then trim (appId app)
             else createSlugId (now1 i) (if origin app = Some Custom then ''custom'' else ''app'') (name app))
       = (if length (trim (appId app)) > 0 then trim (appId app)
             else createSlugId (now2 i) (if origin app = Some Custom then ''custom'' else ''app'') (name app))"
    using createSlugId_clock[of "name app" "now1 i" _ "now2 i"] by auto
  moreover from Cons have "\<And>i seen. ensureUniqueAppIds_from now1 i seen apps = ensureUniqueAppIds_from now2 i seen apps"
    by simp
  ultimately show ?case by (simp add: Let_def)
qed

text \<open>Claim C1, as amended: when every record that takes part in the merge has a non-blank id
  or a name with a slug character, two applications of the merge to the same catalog, custom
  apps and flag give the same list, whatever the clock reads at either application.\<close>

theorem catalogApps_same_output:
  assumes "list_all id_without_clock ((if hide then [] else catalog) @ custom)"
  shows "catalogApps sortApps now1 catalog custom hide
       = catalogApps sortApps now2 catalog custom hide"
proof -
  let ?tag = "\<lambda>app. app\<lparr>origin := Some (case origin app of None \<Rightarrow> Catalog | Some og \<Rightarrow> og)\<rparr>"
  have "list_all id_without_clock (map ?tag ((if hide then [] else catalog) @ custom))"
    using assms by (simp add: list.pred_map comp_def id_without_clock_origin)
  then show ?thesis
    unfolding catalogApps_def ensureUniqueAppIds_def Let_def
    by (simp add: ensureUniqueAppIds_from_clock[of _ now1 0 "[]" now2])
qed

lemmas slug_eval = createSlugId_def Let_def
     toLowerCase_def lower_char_def is_upper_def is_slug_char_def strip_dashes_def trim_def is_ws_def
     digit_char_def suffixed_def char_of_eq_iff

lemma slug_Docs: "createSlugId t ''app'' ''Docs'' = ''app-docs''"
  by (simp add: slug_eval)

lemma slug_bang: "createSlugId 0 ''custom'' ''!'' = ''custom-0'' \<and> createSlugId 5 ''custom'' ''!'' = ''custom-5''"
  by (simp add: slug_eval toString36.simps[of 0]  toString36.simps[of 5])

lemma two_docs:  "map appId (catalogApps (sortAppsByName (\<lambda>s. s)) now [docs, docs] [] False) = [''app-docs'', ''app-docs-2'']"
  by (simp add: catalogApps_def ensureUniqueAppIds_def sortAppsByName_def docs_def slug_Docs trim_def suffixed_def dec.simps[of 2] digit_char_def)

theorem catalogApps_same_output_witness:
  "list_all id_without_clock ((if False then [] else [docs, docs]) @ []) \<and>
   catalogApps (sortAppsByName (\<lambda>s. s)) (\<lambda>i. 0) [docs, docs] [] False = catalogApps (sortAppsByName (\<lambda>s. s)) (\<lambda>i. 1) [docs, docs] [] False"
  using catalogApps_same_output[of False "[docs, docs]" "[]" "sortAppsByName (\<lambda>s. s)"
      "\<lambda>i. 0" "\<lambda>i. 1"]
  by (simp add: id_without_clock_def docs_def slug_eval)

text \<open>Claim C1 as stated fails: a record with a blank id and the name "!" gets the id
  \<open>custom-\<close> followed by the clock reading, so two applications at different times differ.\<close>

theorem catalogApps_clock_counterexample:
  "catalogApps (sortAppsByName (\<lambda>s. s)) (\<lambda>i. 0) [] [app0] False \<noteq> catalogApps (sortAppsByName (\<lambda>s. s)) (\<lambda>i. 5) [] [app0] False"
  using slug_bang by (simp add: catalogApps_def ensureUniqueAppIds_def sortAppsByName_def app0_def trim_def)

subsection \<open>Clamping and page sizes\<close>

lemma clampNumber_throws: "String_throws v \<Longrightarrow> clampNumber v lo hi fb = Inl TypeError"
  by (simp add: clampNumber_def)

lemma clampNumber_cases:
  assumes "\<not> String_throws v"
  shows "clampNumber v lo hi fb = Inr fb \<or>
         (\<exists>q. clampNumber v lo hi fb = Inr (Fin (min (max q lo) hi)))"
  using assms by (cases "parseFloat_String v") (auto simp: clampNumber_def Let_def)

lemma clampNumber_range:
  assumes "lo \<le> hi" and "clampNumber v lo hi (Fin f) = Inr r" and "lo \<le> f" and "f \<le> hi"
  shows "\<exists>q. r = Fin q \<and> lo \<le> q \<and> q \<le> hi"
  using assms by (cases "parseFloat_String v") (auto simp: clampNumber_def Let_def split: if_splits)

lemma of_int_clamp:
  "min (max (of_int a) (of_int lo)) (of_int hi) = (of_int (min (max a lo) hi) :: rat)"
  by (simp add: of_int_max of_int_min)

lemma round_step_int:
  fixes r s :: int
  shows "(of_int \<lfloor>(of_int r :: rat) / of_int s + 1 / 2\<rfloor> :: rat) * of_int s
           = of_int (\<lfloor>(of_int r :: rat) / of_int s + 1 / 2\<rfloor> * s)"
  by simp

lemma normalizePageSize_finite_round:
  assumes "page_constants_ok E" and "\<not> String_throws v"
  shows "\<exists>k. normalizePageSize E v = Inr (Fin (of_int k)) \<and> MIN_PAGE_SIZE E \<le> k \<and>
             k \<le> MAX_PAGE_SIZE E \<and> PAGE_SIZE_STEP E dvd k"
proof -
  let ?lo = "MIN_PAGE_SIZE E" and ?hi = "MAX_PAGE_SIZE E" and ?s = "PAGE_SIZE_STEP E"
  define fallback where "fallback = (case pageSize (defaultUserData E) of
                        Some n \<Rightarrow> n | None \<Rightarrow> Fin (of_int (DEFAULT_PAGE_SIZE E)))"
  from assms(1) have ok: "?lo \<le> ?hi" "1 \<le> ?s" "?s dvd ?lo" "?s dvd ?hi"
    and fin: "isFinite fallback"
    by (auto simp: page_constants_ok_def fallback_def split: option.splits)
  from fin obtain f where f: "fallback = Fin f" by (cases fallback) auto
  from clampNumber_cases[OF assms(2), of "of_int ?lo" "of_int ?hi" fallback]
  obtain c where c: "clampNumber v (of_int ?lo) (of_int ?hi) fallback = Inr (Fin c)"
    using f by auto
  define r where "r = \<lfloor>c + 1 / 2\<rfloor>"
  have rounded: "(if isFinite (Fin c) then Math_round (Fin c) else fallback) = Fin (of_int r)"
    by (simp add: r_def)
  show ?thesis
  proof (cases "?s \<le> 1")
    case True
    with ok have s1: "?s = 1" by simp
    have "normalizePageSize E v = Inr (Fin (of_int (min (max r ?lo) ?hi)))"
      using c True rounded
      by (simp add: normalizePageSize_def Let_def fallback_def[symmetric] of_int_clamp)
    moreover have "?lo \<le> min (max r ?lo) ?hi" "min (max r ?lo) ?hi \<le> ?hi" using ok by auto
    ultimately show ?thesis using s1 by auto
  next
    case False
    define k where "k = \<lfloor>(of_int r :: rat) / of_int ?s + 1 / 2\<rfloor> * ?s"
    have "normalizePageSize E v = Inr (Fin (of_int (min (max k ?lo) ?hi)))"
      using c False rounded
      by (simp add: normalizePageSize_def Let_def fallback_def[symmetric] of_int_clamp[symmetric] k_def)
    moreover have "?lo \<le> min (max k ?lo) ?hi" "min (max k ?lo) ?hi \<le> ?hi" using ok by auto
    moreover have "?s dvd k" by (simp add: k_def)
    then have "?s dvd min (max k ?lo) ?hi" using ok by (auto simp: min_def max_def)
    ultimately show ?thesis by blast
  qed
qed

lemma normalizePageSize_throws:
  "String_throws v \<Longrightarrow> normalizePageSize E v = Inl TypeError"
  by (simp add: normalizePageSize_def clampNumber_def)

subsection \<open>Trimming\<close>

lemma last_dropWhile: "dropWhile P xs \<noteq> [] \<Longrightarrow> last (dropWhile P xs) = last xs"
  by (induction xs) (auto split: if_splits)

lemma trim_id: "trimmed s \<Longrightarrow> trim s = s"
proof (cases s)
  case Nil
  then show ?thesis by (simp add: trim_def)
next
  case (Cons c cs)
  assume "trimmed s"
  with Cons have h: "\<not> is_ws c" and l: "\<not> is_ws (last s)" by (auto simp: trimmed_def)
  from h Cons have a: "dropWhile is_ws s = s" by simp
  from Cons have "rev s \<noteq> []" by simp
  then obtain d ds where r: "rev s = d # ds" by (cases "rev s") auto
  then have "d = last s" using Cons by (metis last_rev list.sel(1) hd_rev rev_rev_ident)
  with l have "dropWhile is_ws (d # ds) = d # ds" by simp
  then have "dropWhile is_ws (rev s) = rev s" unfolding r .
  with a show ?thesis by (simp add: trim_def)
qed

lemma trimmed_trim: "trimmed (trim s)"
proof (cases "dropWhile is_ws s = []")
  case True
  then show ?thesis by (simp add: trim_def trimmed_def del: dropWhile_eq_Nil_conv)
next
  case False
  define t where "t = dropWhile is_ws s"
  define u where "u = dropWhile is_ws (rev t)"
  from False have t: "t \<noteq> []" and ht: "\<not> is_ws (hd t)"
    unfolding t_def by (auto simp: hd_dropWhile)
  have "hd t \<in> set (rev t)" using t by simp
  with ht have u: "u \<noteq> []" unfolding u_def by (auto simp: dropWhile_eq_Nil_conv)
  then have hu: "\<not> is_ws (hd u)" unfolding u_def by (auto simp: hd_dropWhile)
  have "last u = last (rev t)" using u unfolding u_def by (rule last_dropWhile)
  also have "\<dots> = hd t" using t by (simp add: last_rev)
  finally have lu: "last u = hd t" .
  have "trim s = rev u" by (simp add: trim_def t_def u_def)
  moreover have "hd (rev u) = last u" using u by (simp add: hd_rev)
  moreover have "last (rev u) = hd u" using u by (simp add: last_rev)
  ultimately show ?thesis using u hu lu ht by (simp add: trimmed_def)
qed

lemma trim_trim: "trim (trim s) = trim s"
  by (rule trim_id) (rule trimmed_trim)

lemma trim_Nil: "trim [] = []"
  by (simp add: trim_def)

subsection \<open>Hidden-id pruning\<close>

text \<open>What \<open>dedupeHiddenIds\<close> does return: trimmed, non-empty ids of apps of the list.\<close>

lemma dedupeHiddenIds_members:
  "i \<in> set (dedupeHiddenIds hiddenIds apps) \<Longrightarrow> trimmed i \<and> i \<noteq> [] \<and> i \<in> appId ` set apps"
proof (cases hiddenIds)
  case (JArr ids)
  assume "i \<in> set (dedupeHiddenIds hiddenIds apps)"
  with JArr have i: "i \<noteq> []" "i \<in> appId ` set apps"
    and "i \<in> (\<lambda>v. case v of JStr s \<Rightarrow> trim s | _ \<Rightarrow> []) ` set ids"
    by (auto simp: dedupeHiddenIds_def)
  then obtain v where "i = (case v of JStr s \<Rightarrow> trim s | _ \<Rightarrow> [])" by blast
  then have "trimmed i" by (cases v) (simp_all add: trimmed_trim, simp_all add: trimmed_def)
  with i show ?thesis by simp
qed (simp_all add: dedupeHiddenIds_def)

text \<open>Claim C4, at the failing input: of the ids \<open>"a", "a"\<close> and the one app \<open>a\<close>,
  \<open>dedupeHiddenIds\<close> returns both, a list with a duplicate. So does \<open>hideApp\<close> when the hidden
  ids hold \<open>" a"\<close> and \<open>a\<close> is hidden: the \<open>Set\<close> tells the two apart before they are trimmed.\<close>

theorem dedupeHiddenIds_keeps_duplicates:
  "dedupeHiddenIds (JArr [JStr ''a'', JStr ''a'']) [app_a] = [''a'', ''a''] \<and>
   \<not> distinct (dedupeHiddenIds (JArr [JStr ''a'', JStr ''a'']) [app_a]) \<and>
   hiddenAppIds (hideApp [app_a] ''a'' \<lparr>hiddenAppIds = ['' a''], customApps = [], pageSize = None\<rparr>)
     = [''a'', ''a'']"
  by (simp add: dedupeHiddenIds_def hideApp_def Set_from_def Set_add_def app_a_def trim_def is_ws_def)

subsection \<open>Page sizes of the examples\<close>

lemma page_constants_ok_E0: "page_constants_ok E0"
  by (simp add: page_constants_ok_def E0_def userData0_def)

lemma String_throws_unprintable: "String_throws unprintable"
  by (simp add: unprintable_def)

text \<open>With constants in order, \<open>normalizePageSize\<close> returns a multiple of the step within the
  bounds for every value that \<open>String\<close> can convert, and raises for the others.\<close>

lemma normalizePageSize_total:
  assumes "page_constants_ok E"
  shows "(String_throws v \<and> normalizePageSize E v = Inl TypeError) \<or>
         (\<exists>k. normalizePageSize E v = Inr (Fin (of_int k)) \<and> MIN_PAGE_SIZE E \<le> k \<and>
               k \<le> MAX_PAGE_SIZE E \<and> PAGE_SIZE_STEP E dvd k)"
  using normalizePageSize_finite_round[OF assms, of v] normalizePageSize_throws[of v E]
  by (cases "String_throws v") auto

lemma normalizePageSize_above_max:
  assumes "page_constants_ok E" and "of_int (MAX_PAGE_SIZE E) \<le> q"
  shows "normalizePageSize E (JNum (Fin q)) = Inr (Fin (of_int (MAX_PAGE_SIZE E)))"
proof -
  let ?lo = "MIN_PAGE_SIZE E" and ?hi = "MAX_PAGE_SIZE E" and ?s = "PAGE_SIZE_STEP E"
  from assms(1) have ok: "?lo \<le> ?hi" "1 \<le> ?s" "?s dvd ?hi"
    by (auto simp: page_constants_ok_def)
  have c: "clampNumber (JNum (Fin q)) (of_int ?lo) (of_int ?hi) fb = Inr (Fin (of_int ?hi))" for fb
    using assms(2) ok by (simp add: clampNumber_def min_def max_def)
  have r: "\<lfloor>(of_int ?hi :: rat) + 1 / 2\<rfloor> = ?hi" by linarith
  from ok obtain m where m: "?hi = ?s * m" by (auto simp: dvd_def)
  have "(of_int ?hi :: rat) / of_int ?s = of_int m" using ok m by simp
  then have "\<lfloor>(of_int ?hi :: rat) / of_int ?s + 1 / 2\<rfloor> = m" by (simp, linarith)
  then have st: "(of_int \<lfloor>(of_int ?hi :: rat) / of_int ?s + 1 / 2\<rfloor> :: rat) * of_int ?s = of_int ?hi"
    using m by simp
  show ?thesis
    using ok by (simp add: normalizePageSize_def Let_def c r st)
qed

lemma normalizePageSize_999: "normalizePageSize E0 (JNum (Fin 999)) = Inr (Fin 56)"
  using normalizePageSize_above_max[OF page_constants_ok_E0, of 999]
  by (simp add: E0_def)

text \<open>Claim C9, at the failing input: for the value \<^verbatim>\<open>{"toString": 1}\<close>, \<open>String(value)\<close> in
  \<open>clampNumber\<close> raises a TypeError, and \<open>normalizePageSize\<close> returns no number.\<close>

theorem normalizePageSize_raises:
  "normalizePageSize E unprintable = Inl TypeError"
  by (simp add: normalizePageSize_throws String_throws_unprintable)

subsection \<open>Normalized colours\<close>

lemma digit_char_lower_hex: "d < 16 \<Longrightarrow> is_lower_hex (digit_char d)"
proof -
  have "\<forall>d<16. is_lower_hex (digit_char d)"
    unfolding digit_char_def is_lower_hex_def by (simp add: All_less_Suc numeral_nat)
  then show "d < 16 \<Longrightarrow> is_lower_hex (digit_char d)" by blast
qed

lemma toString16_byte:
  "n < 256 \<Longrightarrow> padStart2 (toString16 n) = [digit_char (n div 16), digit_char (n mod 16)]"
proof (cases "n < 16")
  case True
  then show ?thesis
    by (simp add: toString16.simps[of n] padStart2_def digit_char_def)
next
  case False
  assume "n < 256"
  then have "n div 16 < 16" by simp
  with False show ?thesis
    by (simp add: toString16.simps[of n] toString16.simps[of "n div 16"] padStart2_def)
qed

lemma toHex_form:
  assumes "0 \<le> c" and "c < 256"
  shows "length (toHex c) = 2 \<and> list_all is_lower_hex (toHex c)"
proof -
  from assms have n: "nat c < 256" by simp
  then have "nat c div 16 < 16" by simp
  moreover have "nat c mod 16 < 16" by simp
  ultimately show ?thesis
    unfolding toHex_def toString16_byte[OF n] by (simp add: digit_char_lower_hex)
qed

lemma hexToRgb_range:
  assumes "hexToRgb v = Some rgb"
  shows "0 \<le> rgb_r rgb \<and> rgb_r rgb < 256 \<and> 0 \<le> rgb_g rgb \<and> rgb_g rgb < 256 \<and>
         0 \<le> rgb_b rgb \<and> rgb_b rgb < 256"
  using assms
  by (auto simp: hexToRgb_def Let_def split: jsval.splits if_splits option.splits)

lemma rgbToHex_color:
  assumes "0 \<le> rgb_r rgb \<and> rgb_r rgb < 256 \<and> 0 \<le> rgb_g rgb \<and> rgb_g rgb < 256 \<and>
         0 \<le> rgb_b rgb \<and> rgb_b rgb < 256"
  shows "is_hex_color (rgbToHex rgb)"
  using assms toHex_form[of "rgb_r rgb"] toHex_form[of "rgb_g rgb"] toHex_form[of "rgb_b rgb"]
  by (simp add: is_hex_color_def rgbToHex_def)

lemma resolveHexColor_color:
  assumes "is_hex_color fallback"
  shows "is_hex_color (resolveHexColor v fallback)"
  using assms
  by (auto simp: resolveHexColor_def split: option.splits
           intro!: rgbToHex_color dest: hexToRgb_range)

subsection \<open>Valid settings\<close>

lemma clampNumber_in_range:
  assumes "lo \<le> hi" and "in_range fb lo hi" and "clampNumber v lo hi fb = Inr r"
  shows "in_range r lo hi"
  using assms
  by (cases "parseFloat_String v")
     (auto simp: clampNumber_def in_range_def Let_def split: if_splits jsnum.splits)

lemma clampNumber_Inr:
  "\<not> String_throws v \<Longrightarrow> \<exists>r. clampNumber v lo hi fb = Inr r"
  by (simp add: clampNumber_def Let_def)

text \<open>When the default settings are valid, whatever \<open>updateSettingsFromForm\<close> returns is
  valid, and it returns unless one of the three numbers of the update cannot be converted
  to a string.\<close>

lemma updateSettingsFromForm_valid:
  assumes "valid_settings (defaultSettings E)"
    and "updateSettingsFromForm E base partial = Inr s"
  shows "valid_settings s"
proof -
  from assms(1) have d: "in_range (overlayOpacity (defaultSettings E)) 0 (3 / 5)"
    "in_range (blurStrength (defaultSettings E)) 0 20"
    "in_range (glassTintOpacity (defaultSettings E)) (1 / 20) (19 / 20)"
    "is_hex_color (backgroundColor (defaultSettings E))"
    "is_hex_color (glassTintColor (defaultSettings E))"
    "mobileLayout (defaultSettings E) \<noteq> None"
    by (simp_all add: valid_settings_def)
  from assms(2) obtain oo bs gto where
    oo: "clampNumber (getp partial ''overlayOpacity'') 0 (3 / 5) (overlayOpacity (defaultSettings E)) = Inr oo"
    and bs: "clampNumber (getp partial ''blurStrength'') 0 20 (blurStrength (defaultSettings E)) = Inr bs"
    and gto: "clampNumber (getp partial ''glassTintOpacity'') (1 / 20) (19 / 20) (glassTintOpacity (defaultSettings E)) = Inr gto"
    and s: "overlayOpacity s = oo" "blurStrength s = bs" "glassTintOpacity s = gto"
      "backgroundColor s = resolveHexColor (getp partial ''backgroundColor'') (backgroundColor (defaultSettings E))"
      "glassTintColor s = resolveHexColor (getp partial ''glassTintColor'') (glassTintColor (defaultSettings E))"
      "mobileLayout s =
                 (if getp partial ''mobileLayout'' = JStr ''list'' then Some LayoutList
                  else if getp partial ''mobileLayout'' = JStr ''grid'' then Some LayoutGrid
                  else (case mobileLayout base of
                          Some l \<Rightarrow> Some l
                        | None \<Rightarrow> mobileLayout (defaultSettings E)))"
    by (auto simp: updateSettingsFromForm_def split: sum.splits)
  have "in_range oo 0 (3 / 5)" using clampNumber_in_range[OF _ d(1) oo] by simp
  moreover have "in_range bs 0 20" using clampNumber_in_range[OF _ d(2) bs] by simp
  moreover have "in_range gto (1 / 20) (19 / 20)" using clampNumber_in_range[OF _ d(3) gto] by simp
  moreover have "mobileLayout s \<noteq> None" using d(6) by (simp add: s split: option.splits)
  ultimately show ?thesis
    using d(4,5) by (simp add: valid_settings_def s resolveHexColor_color)
qed

lemma updateSettingsFromForm_raises_iff:
  "updateSettingsFromForm E base partial = Inl TypeError \<longleftrightarrow>
     String_throws (getp partial ''overlayOpacity'') \<or> String_throws (getp partial ''blurStrength'') \<or>
     String_throws (getp partial ''glassTintOpacity'')"
  by (auto simp: updateSettingsFromForm_def clampNumber_def Let_def split: sum.splits)

lemma updateSettingsFromForm_backgroundType:
  "updateSettingsFromForm E base partial = Inr s \<Longrightarrow>
   backgroundType s = (if getp partial ''backgroundType'' = JStr ''color'' then BgColor else BgImage)"
  by (auto simp: updateSettingsFromForm_def split: sum.splits)

text \<open>Claim C6, at the failing input: for an update whose \<open>overlayOpacity\<close> is the object
  \<^verbatim>\<open>{"toString": 1}\<close>, \<open>updateSettingsFromForm\<close> raises a TypeError (in \<open>clampNumber\<close>) and
  returns no settings.\<close>

theorem updateSettingsFromForm_raises:
  "updateSettingsFromForm E base [(''overlayOpacity'', unprintable)] = Inl TypeError"
  by (simp add: updateSettingsFromForm_raises_iff getp_def String_throws_unprintable)

subsection \<open>The URL sanitizer\<close>

lemma sanitizeHttpUrl_nonempty:
  assumes "sanitizeHttpUrl E (JStr s) \<noteq> []"
  shows "\<exists>u. new_URL E (if prefix ''//'' (trim s) then ''https:'' @ trim s
                         else if \<not> has_scheme (trim s) then ''https://'' @ trim s
                         else trim s) = Some u \<and>
             (protocol u = ''http:'' \<or> protocol u = ''https:'') \<and>
             sanitizeHttpUrl E (JStr s) = href u"
  using assms
  by (auto simp: sanitizeHttpUrl_def Let_def split: if_splits option.splits)

text \<open>Claim C5. \<open>sanitizeHttpUrl\<close> returns the empty string for a value that is no string, for
  a string that is empty once trimmed, and for one that starts with \<open>javascript:\<close> in any
  case of letters; it gives a string and its trimmed form the same result. For any other
  string the constructor is given the trimmed input, prefixed with \<open>https:\<close> when it begins
  with \<open>//\<close> and with \<open>https://\<close> when it has no scheme: when the constructor makes a URL
  of it whose protocol is \<open>http:\<close> or \<open>https:\<close>, the result is the canonical form \<open>href\<close>
  of that URL; when the constructor fails, or the protocol is another one, the result is the
  empty string. Conversely a result that is not empty is such a \<open>href\<close>. No exception leaves
  the function: it is total. Of the three examples, the first holds as it is, the other two
  for a constructor that accepts \<open>https://example.com\<close> and \<open>https://example.com/x\<close> as
  the \<open>URL\<close> of the host does.\<close>

theorem sanitizeHttpUrl_spec:
  "((\<forall>s. v \<noteq> JStr s) \<longrightarrow> sanitizeHttpUrl E v = []) \<and>
   (trim s = [] \<or> prefix_ci ''javascript:'' (trim s) \<longrightarrow> sanitizeHttpUrl E (JStr s) = []) \<and>
   sanitizeHttpUrl E (JStr s) = sanitizeHttpUrl E (JStr (trim s)) \<and>
   (trim s \<noteq> [] \<and> \<not> prefix_ci ''javascript:'' (trim s) \<and>
    new_URL E (if prefix ''//'' (trim s) then ''https:'' @ trim s
               else if \<not> has_scheme (trim s) then ''https://'' @ trim s
               else trim s) = Some u \<and>
    (protocol u = ''http:'' \<or> protocol u = ''https:'')
      \<longrightarrow> sanitizeHttpUrl E (JStr s) = href u) \<and>
   (new_URL E (if prefix ''//'' (trim s) then ''https:'' @ trim s
               else if \<not> has_scheme (trim s) then ''https://'' @ trim s
               else trim s) = None
      \<longrightarrow> sanitizeHttpUrl E (JStr s) = []) \<and>
   (new_URL E (if prefix ''//'' (trim s) then ''https:'' @ trim s
               else if \<not> has_scheme (trim s) then ''https://'' @ trim s
               else trim s) = Some u \<and>
    protocol u \<noteq> ''http:'' \<and> protocol u \<noteq> ''https:''
      \<longrightarrow> sanitizeHttpUrl E (JStr s) = []) \<and>
   (sanitizeHttpUrl E (JStr s) \<noteq> [] \<longrightarrow>
      (\<exists>u. new_URL E (if prefix ''//'' (trim s) then ''https:'' @ trim s
                       else if \<not> has_scheme (trim s) then ''https://'' @ trim s
                       else trim s) = Some u \<and>
           (protocol u = ''http:'' \<or> protocol u = ''https:'') \<and>
           sanitizeHttpUrl E (JStr s) = href u)) \<and>
   sanitizeHttpUrl E (JStr ''javascript:alert(1)'') = [] \<and>
   (new_URL E ''https://example.com'' = Some \<lparr>protocol = ''https:'', href = ''https://example.com/''\<rparr>
      \<longrightarrow> sanitizeHttpUrl E (JStr ''example.com'') = ''https://example.com/'') \<and>
   ((\<exists>u. new_URL E ''https://example.com/x'' = Some u \<and> protocol u = ''https:'' \<and>
          prefix ''https://'' (href u))
      \<longrightarrow> prefix ''https://'' (sanitizeHttpUrl E (JStr ''//example.com/x'')))"
proof (intro conjI impI)
  assume "\<forall>s. v \<noteq> JStr s"
  then show "sanitizeHttpUrl E v = []"
    by (cases v) (simp_all add: sanitizeHttpUrl_def)
next
  assume "trim s = [] \<or> prefix_ci ''javascript:'' (trim s)"
  then show "sanitizeHttpUrl E (JStr s) = []"
    by (auto simp: sanitizeHttpUrl_def)
next
  show "sanitizeHttpUrl E (JStr s) = sanitizeHttpUrl E (JStr (trim s))"
    by (simp add: sanitizeHttpUrl_def trim_trim)
next
  assume "trim s \<noteq> [] \<and> \<not> prefix_ci ''javascript:'' (trim s) \<and>
    new_URL E (if prefix ''//'' (trim s) then ''https:'' @ trim s
               else if \<not> has_scheme (trim s) then ''https://'' @ trim s
               else trim s) = Some u \<and>
    (protocol u = ''http:'' \<or> protocol u = ''https:'')"
  then show "sanitizeHttpUrl E (JStr s) = href u"
    by (auto simp: sanitizeHttpUrl_def Let_def)
next
  assume "new_URL E (if prefix ''//'' (trim s) then ''https:'' @ trim s
               else if \<not> has_scheme (trim s) then ''https://'' @ trim s
               else trim s) = None"
  then show "sanitizeHttpUrl E (JStr s) = []"
    by (auto simp: sanitizeHttpUrl_def Let_def)
next
  assume "new_URL E (if prefix ''//'' (trim s) then ''https:'' @ trim s
               else if \<not> has_scheme (trim s) then ''https://'' @ trim s
               else trim s) = Some u \<and>
    protocol u \<noteq> ''http:'' \<and> protocol u \<noteq> ''https:''"
  then show "sanitizeHttpUrl E (JStr s) = []"
    by (auto simp: sanitizeHttpUrl_def Let_def)
next
  assume "sanitizeHttpUrl E (JStr s) \<noteq> []"
  then show "\<exists>u. new_URL E (if prefix ''//'' (trim s) then ''https:'' @ trim s
                       else if \<not> has_scheme (trim s) then ''https://'' @ trim s
                       else trim s) = Some u \<and>
           (protocol u = ''http:'' \<or> protocol u = ''https:'') \<and>
           sanitizeHttpUrl E (JStr s) = href u"
    by (rule sanitizeHttpUrl_nonempty)
next
  show "sanitizeHttpUrl E (JStr ''javascript:alert(1)'') = []"
    by (simp add: sanitizeHttpUrl_def trim_def is_ws_def prefix_ci_def ascii_lower_def)
next
  assume "new_URL E ''https://example.com'' = Some \<lparr>protocol = ''https:'', href = ''https://example.com/''\<rparr>"
  then show "sanitizeHttpUrl E (JStr ''example.com'') = ''https://example.com/''"
    by (simp add: sanitizeHttpUrl_def trim_def is_ws_def prefix_ci_def ascii_lower_def
        has_scheme_def is_alpha_def is_scheme_char_def is_digit_def)
next
  assume "\<exists>u. new_URL E ''https://example.com/x'' = Some u \<and> protocol u = ''https:'' \<and>
          prefix ''https://'' (href u)"
  then show "prefix ''https://'' (sanitizeHttpUrl E (JStr ''//example.com/x''))"
    by (auto simp: sanitizeHttpUrl_def trim_def is_ws_def prefix_ci_def ascii_lower_def)
qed

lemma char_eq_char_of: "(c = char_of (n :: nat)) = (take_bit 8 n = of_char c)"
  using char_of_eq_iff[of n c] by auto

lemmas url_eval = sanitizeHttpUrl_def trim_def is_ws_def prefix_ci_def ascii_lower_def
        has_scheme_def is_alpha_def is_scheme_char_def is_digit_def E0_def URL0_def Let_def
        char_of_eq_iff char_eq_char_of

theorem sanitizeHttpUrl_spec_witness:
  "sanitizeHttpUrl E0 (JNum (Fin 1)) = [] \<and>
   sanitizeHttpUrl E0 (JStr ''  JavaScript:alert(1)'') = [] \<and>
   trim '' example.com '' = ''example.com'' \<and>
   \<not> prefix_ci ''javascript:'' ''example.com'' \<and>
   new_URL E0 ''https://example.com'' = Some \<lparr>protocol = ''https:'', href = ''https://example.com/''\<rparr> \<and>
   sanitizeHttpUrl E0 (JStr '' example.com '') = ''https://example.com/'' \<and>
   sanitizeHttpUrl E0 (JStr ''example.com'') = ''https://example.com/'' \<and>
   prefix ''https://'' (sanitizeHttpUrl E0 (JStr ''//example.com/x'')) \<and>
   new_URL E0 ''ftp://example.com/'' = Some \<lparr>protocol = ''ftp:'', href = ''ftp://example.com/''\<rparr> \<and>
   sanitizeHttpUrl E0 (JStr ''ftp://example.com/'') = [] \<and>
   new_URL E0 ''https://exa mple.com'' = None \<and>
   sanitizeHttpUrl E0 (JStr ''exa mple.com'') = []"
  using sanitizeHttpUrl_spec[of "JNum (Fin 1)" E0 "'' example.com ''"
          "\<lparr>protocol = ''https:'', href = ''https://example.com/''\<rparr>"]
        sanitizeHttpUrl_spec[of "JNum (Fin 1)" E0 "''ftp://example.com/''"
          "\<lparr>protocol = ''ftp:'', href = ''ftp://example.com/''\<rparr>"]
        sanitizeHttpUrl_spec[of "JNum (Fin 1)" E0 "''exa mple.com''"
          "\<lparr>protocol = ''https:'', href = ''https://example.com/''\<rparr>"]
  by (simp add: url_eval)

subsection \<open>Custom apps and hidden ids\<close>











subsection \<open>Values the sanitizers leave as they are\<close>

lemma clampNumber_in_range_id:
  "in_range n lo hi \<Longrightarrow> clampNumber (JNum n) lo hi fb = Inr n"
  by (cases n) (auto simp: in_range_def clampNumber_def Let_def)

lemma lower_hex_not_ws: "is_lower_hex c \<Longrightarrow> \<not> is_ws c"
  by (auto simp: is_lower_hex_def is_ws_def Let_def)

lemma lower_hex_is_hex: "is_lower_hex c \<Longrightarrow> is_hex_digit c"
  by (auto simp: is_lower_hex_def is_hex_digit_def Let_def)

lemma digit_char_code:
  assumes "k < 16"
  shows "digit_char k = char_of (if k < 10 then 48 + k else 87 + k)"
proof -
  from assms consider "k = 0" | "k = 1" | "k = 2" | "k = 3" | "k = 4" | "k = 5" | "k = 6" | "k = 7"
    | "k = 8" | "k = 9" | "k = 10" | "k = 11" | "k = 12" | "k = 13" | "k = 14" | "k = 15"
    by atomize_elim presburger
  then show ?thesis
    by cases (simp_all add: digit_char_def char_eq_char_of)
qed

lemma hex_val_lower:
  assumes "is_lower_hex c"
  shows "hex_val c < 16" and "digit_char (hex_val c) = c"
proof -
  let ?n = "of_char c :: nat"
  from assms have n: "(48 \<le> ?n \<and> ?n \<le> 57) \<or> (97 \<le> ?n \<and> ?n \<le> 102)"
    by (simp add: is_lower_hex_def Let_def)
  then show k: "hex_val c < 16" by (auto simp: hex_val_def Let_def)
  have "(if hex_val c < 10 then 48 + hex_val c else 87 + hex_val c) = ?n"
    using n by (auto simp: hex_val_def Let_def)
  then have "digit_char (hex_val c) = char_of ?n"
    using digit_char_code[OF k] by simp
  then show "digit_char (hex_val c) = c" by simp
qed

lemma byte_of_two_digits:
  fixes a b :: nat
  assumes "a < 16" and "b < 16"
  shows "(a * 16 + b) div 16 = a" and "(a * 16 + b) mod 16 = b" and "a * 16 + b < 256"
  using assms by auto

lemma byte_split:
  fixes X C :: nat
  assumes "C < 256"
  shows "(X * 256 + C) div 256 = X" and "(X * 256 + C) mod 256 = C"
  using assms by simp_all

lemma three_bytes_split:
  fixes A B C :: nat
  assumes "B < 256" "C < 256"
  shows "((A * 256 + B) * 256 + C) div 65536 = A"
    and "(((A * 256 + B) * 256 + C) div 256) mod 256 = B"
    and "((A * 256 + B) * 256 + C) mod 256 = C"
proof -
  show "(((A * 256 + B) * 256 + C) div 256) mod 256 = B"
    unfolding byte_split(1)[OF assms(2)] by (rule byte_split(2)[OF assms(1)])
  show "((A * 256 + B) * 256 + C) mod 256 = C"
    by (rule byte_split(2)[OF assms(2)])
  have "((A * 256 + B) * 256 + C) div 65536 = (((A * 256 + B) * 256 + C) div 256) div 256"
    by (simp only: div_mult2_eq[symmetric]) simp
  also have "\<dots> = A"
    unfolding byte_split(1)[OF assms(2)] by (rule byte_split(1)[OF assms(1)])
  finally show "((A * 256 + B) * 256 + C) div 65536 = A" .
qed

lemma six_digits_split:
  fixes h1 h2 h3 h4 h5 h6 :: nat
  assumes "h1 < 16" "h2 < 16" "h3 < 16" "h4 < 16" "h5 < 16" "h6 < 16"
  defines "n \<equiv> 16 * (16 * (16 * (16 * (16 * h1 + h2) + h3) + h4) + h5) + h6"
  shows "(n div 65536) mod 256 = h1 * 16 + h2"
    and "(n div 256) mod 256 = h3 * 16 + h4"
    and "n mod 256 = h5 * 16 + h6"
proof -
  define A B C where "A = h1 * 16 + h2" and "B = h3 * 16 + h4" and "C = h5 * 16 + h6"
  have n: "n = (A * 256 + B) * 256 + C"
    by (simp add: n_def A_def B_def C_def algebra_simps)
  have b: "A < 256" "B < 256" "C < 256"
    using assms(1-6) by (auto simp: A_def B_def C_def)
  show "(n div 65536) mod 256 = h1 * 16 + h2"
    unfolding n three_bytes_split(1)[OF b(2,3)] using b(1) by (simp add: A_def)
  show "(n div 256) mod 256 = h3 * 16 + h4"
    unfolding n three_bytes_split(2)[OF b(2,3)] by (simp add: B_def)
  show "n mod 256 = h5 * 16 + h6"
    unfolding n three_bytes_split(3)[OF b(2,3)] by (simp add: C_def)
qed

lemma lower_hex_not_special:
  assumes "is_lower_hex c"
  shows "c \<noteq> CHR ''-''" "c \<noteq> CHR ''+''" "c \<noteq> CHR ''x''" "c \<noteq> CHR ''X''" "c \<noteq> CHR ''#''"
  using assms by (auto simp: is_lower_hex_def Let_def)

lemma parseInt16_lower_hex:
  assumes "ds \<noteq> []" and "list_all is_lower_hex ds"
  shows "parseInt16 ds = Some (int (hex_digits_val ds))"
proof -
  from assms obtain d r where ds: "ds = d # r" and d: "is_lower_hex d" and r: "list_all is_lower_hex r"
    by (cases ds) auto
  have ws: "dropWhile is_ws ds = ds" using d by (simp add: ds lower_hex_not_ws)
  have sg: "(case ds of
               [] \<Rightarrow> (False, [])
             | c # r \<Rightarrow> if c = CHR ''-'' then (True, r) else if c = CHR ''+'' then (False, r)
                         else (False, ds)) = (False, ds)"
    using lower_hex_not_special(1,2)[OF d] by (simp add: ds)
  have px: "\<not> prefix ''0x'' ds \<and> \<not> prefix ''0X'' ds"
  proof (cases r)
    case Nil
    then show ?thesis by (simp add: ds)
  next
    case (Cons e r')
    with r have "is_lower_hex e" by simp
    from lower_hex_not_special(3,4)[OF this] show ?thesis by (simp add: ds Cons)
  qed
  have tw: "takeWhile is_hex_digit ds = ds"
    using assms(2) by (simp add: takeWhile_eq_all_conv list_all_iff lower_hex_is_hex)
  show ?thesis
    unfolding parseInt16_def Let_def ws sg
    using assms(1) px by (simp add: tw)
qed

lemma hex_color_split:
  assumes "is_hex_color c"
  obtains d1 d2 d3 d4 d5 d6 where "c = [CHR ''#'', d1, d2, d3, d4, d5, d6]"
    and "is_lower_hex d1" "is_lower_hex d2" "is_lower_hex d3"
    and "is_lower_hex d4" "is_lower_hex d5" "is_lower_hex d6"
proof -
  from assms have "length c = Suc (Suc (Suc (Suc (Suc (Suc (Suc 0))))))"
    by (simp add: is_hex_color_def)
  then obtain c0 d1 d2 d3 d4 d5 d6 where c: "c = [c0, d1, d2, d3, d4, d5, d6]"
    by (auto simp: length_Suc_conv)
  with assms have "c0 = CHR ''#''" "is_lower_hex d1" "is_lower_hex d2" "is_lower_hex d3"
    "is_lower_hex d4" "is_lower_hex d5" "is_lower_hex d6"
    by (simp_all add: is_hex_color_def)
  with c that show thesis by blast
qed

lemma toHex_two_digits:
  assumes "is_lower_hex a" and "is_lower_hex b"
  shows "toHex (int (hex_val a * 16 + hex_val b)) = [a, b]"
proof -
  note ha = hex_val_lower[OF assms(1)] and hb = hex_val_lower[OF assms(2)]
  note bt = byte_of_two_digits[OF ha(1) hb(1)]
  have "toHex (int (hex_val a * 16 + hex_val b)) = padStart2 (toString16 (hex_val a * 16 + hex_val b))"
    by (simp only: toHex_def nat_int)
  also have "\<dots> = [digit_char (hex_val a), digit_char (hex_val b)]"
    by (simp only: toString16_byte[OF bt(3)] bt(1,2))
  finally show ?thesis by (simp only: ha(2) hb(2))
qed

lemma int_byte_ops:
  fixes n :: nat
  shows "(int n div 65536) mod 256 = int ((n div 65536) mod 256)"
    and "(int n div 256) mod 256 = int ((n div 256) mod 256)"
    and "int n mod 256 = int (n mod 256)"
  by (simp_all only: zdiv_int zmod_int of_nat_numeral)

lemma hexToRgb_color:
  assumes "c = [CHR ''#'', d1, d2, d3, d4, d5, d6]"
    and "is_lower_hex d1" "is_lower_hex d2" "is_lower_hex d3"
    and "is_lower_hex d4" "is_lower_hex d5" "is_lower_hex d6"
  shows "hexToRgb (JStr c) =
           Some \<lparr>rgb_r = int (hex_val d1 * 16 + hex_val d2),
                 rgb_g = int (hex_val d3 * 16 + hex_val d4),
                 rgb_b = int (hex_val d5 * 16 + hex_val d6)\<rparr>"
proof -
  have "\<not> is_ws (CHR ''#'')" by (simp add: is_ws_def)
  moreover have "\<not> is_ws d6" using assms(7) by (rule lower_hex_not_ws)
  ultimately have "trimmed c" by (simp add: trimmed_def assms(1))
  then have t: "trim c = c" by (rule trim_id)
  define ds where "ds = [d1, d2, d3, d4, d5, d6]"
  define N where "N = hex_digits_val ds"
  have p: "parseInt16 ds = Some (int N)"
    unfolding N_def using assms(2-7) by (intro parseInt16_lower_hex) (simp_all add: ds_def)
  have v: "N =
      16 * (16 * (16 * (16 * (16 * hex_val d1 + hex_val d2) + hex_val d3) + hex_val d4) + hex_val d5) + hex_val d6"
    by (simp add: N_def ds_def hex_digits_val_def)
  note h = hex_val_lower(1)[OF assms(2)] hex_val_lower(1)[OF assms(3)] hex_val_lower(1)[OF assms(4)]
    hex_val_lower(1)[OF assms(5)] hex_val_lower(1)[OF assms(6)] hex_val_lower(1)[OF assms(7)]
  note s = six_digits_split[OF h, folded v]
  have r: "(int N div 65536) mod 256 = int (hex_val d1 * 16 + hex_val d2)"
    "(int N div 256) mod 256 = int (hex_val d3 * 16 + hex_val d4)"
    "int N mod 256 = int (hex_val d5 * 16 + hex_val d6)"
    by (simp_all only: int_byte_ops s)
  have c1: "c \<noteq> []" and c2: "(if prefix ''#'' c then drop 1 c else c) = ds"
    by (simp_all add: assms(1) ds_def)
  have c4: "length ds = 6"
    by (simp add: ds_def)
  show ?thesis
    unfolding hexToRgb_def
    by (simp add: Let_def t c1 c2 c4 p r del: of_nat_add of_nat_mult)
qed

lemma resolveHexColor_id:
  assumes "is_hex_color c"
  shows "resolveHexColor (JStr c) fb = c"
proof -
  from assms obtain d1 d2 d3 d4 d5 d6 where c: "c = [CHR ''#'', d1, d2, d3, d4, d5, d6]"
    and d: "is_lower_hex d1" "is_lower_hex d2" "is_lower_hex d3"
      "is_lower_hex d4" "is_lower_hex d5" "is_lower_hex d6"
    by (rule hex_color_split)
  show ?thesis
    unfolding resolveHexColor_def hexToRgb_color[OF c d]
    by (simp only: option.case rgbToHex_def RGB.simps toHex_two_digits d c append.simps)
qed

subsection \<open>Settings the reconciler leaves as they are\<close>

lemma sanitizeBackgroundImage_id:
  "trimmed s \<Longrightarrow> \<not> contains_ci ''javascript:'' s \<Longrightarrow> sanitizeBackgroundImage (JStr s) = s"
  by (simp add: sanitizeBackgroundImage_def trim_id)

lemma getp_obj_of_settings:
  assumes "hideDefaultApps s = Some h" and "mobileLayout s = Some l" and "hasCompletedSetup s = JBool c"
  shows "getp (obj_of_settings s @ rest) ''backgroundType'' = of_bgtype (backgroundType s)"
    and "getp (obj_of_settings s @ rest) ''backgroundColor'' = JStr (backgroundColor s)"
    and "getp (obj_of_settings s @ rest) ''backgroundImage'' = JStr (backgroundImage s)"
    and "getp (obj_of_settings s @ rest) ''overlayOpacity'' = JNum (overlayOpacity s)"
    and "getp (obj_of_settings s @ rest) ''blurStrength'' = JNum (blurStrength s)"
    and "getp (obj_of_settings s @ rest) ''glassTintColor'' = JStr (glassTintColor s)"
    and "getp (obj_of_settings s @ rest) ''glassTintOpacity'' = JNum (glassTintOpacity s)"
    and "getp (obj_of_settings s @ rest) ''hideDefaultApps'' = JBool h"
    and "getp (obj_of_settings s @ rest) ''mobileLayout'' = of_layout l"
    and "map_of (obj_of_settings s @ rest) ''hasCompletedSetup'' = Some (JBool c)"
  using assms
  by (simp_all add: getp_def obj_of_settings_def opt_prop_def of_bool_opt_def of_layout_def
        split: layout.splits)

lemma updateSettingsFromForm_canonical:
  assumes "canonical_settings s"
  shows "updateSettingsFromForm E base (obj_of_settings s @ rest) = Inr s"
proof -
  from assms obtain h l c where o: "hideDefaultApps s = Some h" "mobileLayout s = Some l"
    "hasCompletedSetup s = JBool c"
    by (auto simp: canonical_settings_def valid_settings_def split: jsval.splits)
  note g = getp_obj_of_settings[OF o, of rest]
  from assms have n: "in_range (overlayOpacity s) 0 (3 / 5)" "in_range (blurStrength s) 0 20"
    "in_range (glassTintOpacity s) (1 / 20) (19 / 20)"
    and k: "is_hex_color (backgroundColor s)" "is_hex_color (glassTintColor s)"
    and b: "trimmed (backgroundImage s)" "\<not> contains_ci ''javascript:'' (backgroundImage s)"
    by (simp_all add: canonical_settings_def valid_settings_def)
  have t: "(if of_bgtype (backgroundType s) = JStr ''color'' then BgColor else BgImage) = backgroundType s"
    by (cases "backgroundType s") (simp_all add: of_bgtype_def)
  have m: "(if of_layout l = JStr ''list'' then Some LayoutList
            else if of_layout l = JStr ''grid'' then Some LayoutGrid
            else (case mobileLayout base of Some l \<Rightarrow> Some l | None \<Rightarrow> mobileLayout (defaultSettings E)))
           = mobileLayout s"
    by (cases l) (simp_all add: of_layout_def o)
  have "updateSettingsFromForm E base (obj_of_settings s @ rest) =
      Inr \<lparr>backgroundType = backgroundType s, backgroundColor = backgroundColor s,
           backgroundImage = backgroundImage s, overlayOpacity = overlayOpacity s,
           blurStrength = blurStrength s, glassTintColor = glassTintColor s,
           glassTintOpacity = glassTintOpacity s, hideDefaultApps = hideDefaultApps s,
           mobileLayout = mobileLayout s, hasCompletedSetup = hasCompletedSetup s\<rparr>"
    unfolding updateSettingsFromForm_def g clampNumber_in_range_id[OF n(1)]
      clampNumber_in_range_id[OF n(2)] clampNumber_in_range_id[OF n(3)]
      resolveHexColor_id[OF k(1)] resolveHexColor_id[OF k(2)] sanitizeBackgroundImage_id[OF b] t m
    by (simp add: coalesce_def o)
  then show ?thesis by simp
qed

lemma import_settings_canonical:
  assumes "canonical_settings s"
  shows "import_settings E current (JObj (obj_of_settings s)) = Inr (Some s)"
proof -
  from assms obtain h l c where o: "hideDefaultApps s = Some h" "mobileLayout s = Some l"
    "hasCompletedSetup s = JBool c"
    by (auto simp: canonical_settings_def valid_settings_def split: jsval.splits)
  have "getp (obj_of_settings s) ''hasCompletedSetup'' = JBool c"
    using getp_obj_of_settings(10)[OF o, of "[]"] by (simp add: getp_def)
  then show ?thesis
    by (simp add: import_settings_def Let_def updateSettingsFromForm_canonical[OF assms] o)
qed

text \<open>An import whose \<open>settings\<close> is an object with none of the fields yields the default
  settings, with the \<open>hasCompletedSetup\<close> of the current ones.\<close>

lemma import_settings_empty:
  assumes "canonical_settings (defaultSettings E)" and "\<not> nullish (hasCompletedSetup current)"
  shows "import_settings E current (JObj []) =
           Inr (Some ((defaultSettings E)\<lparr>hasCompletedSetup := hasCompletedSetup current\<rparr>))"
  using updateSettingsFromForm_canonical[OF assms(1), of E "defaultSettings E" "[]"] assms(2)
  by (simp add: import_settings_def Let_def getp_def coalesce_def)

subsection \<open>Failing imports\<close>

lemma import_settings_not_object:
  "\<not> (truthy raw \<and> is_object raw) \<Longrightarrow> import_settings E current raw = Inr None"
  by (auto simp: import_settings_def)

lemma import_userData_not_object:
  "\<not> (truthy raw \<and> is_object raw) \<Longrightarrow> import_userData E raw = Inr None"
  by (auto simp: import_userData_def)

lemma import_settings_object:
  "truthy raw \<and> is_object raw \<Longrightarrow> import_settings E current raw \<noteq> Inr None"
  by (auto simp: import_settings_def Let_def split: sum.splits)

lemma import_userData_object:
  "truthy raw \<and> is_object raw \<Longrightarrow> import_userData E raw \<noteq> Inr None"
  by (auto simp: import_userData_def Let_def map_sum_def split: sum.splits jsval.splits)

text \<open>What holds of \<open>importBackup\<close>: it returns a failure for a value that is no object and
  for one where neither \<open>settings\<close> nor \<open>userData\<close> holds an object, and whenever it
  returns a failure the state is as before.\<close>

lemma importBackup_not_object:
  "\<not> truthy data \<or> \<not> is_object data \<Longrightarrow>
   importBackup E st data = (Returned False ''The backup file is invalid.'', st)"
  by (auto simp: importBackup_def)

lemma importBackup_nothing_to_import:
  assumes "truthy data" and "is_object data"
    and "\<not> (truthy (getp (props data) ''settings'') \<and> is_object (getp (props data) ''settings''))"
    and "\<not> (truthy (getp (props data) ''userData'') \<and> is_object (getp (props data) ''userData''))"
  shows "importBackup E st data = (Returned False ''The backup file is missing required data.'', st) \<or>
         importBackup E st data = (Returned False ''No changes were applied from the backup file.'', st)"
  using assms
  by (simp add: importBackup_def Let_def import_settings_not_object import_userData_not_object)

lemma importBackup_failure_unchanged:
  assumes "importBackup E st data = (Returned False msg, st')"
  shows "st' = st"
  using assms
  by (auto simp: importBackup_def Let_def split: if_splits sum.splits option.splits)

lemma is_hex_color_default: "is_hex_color ''#0f172a''"
  by (simp add: is_hex_color_def is_lower_hex_def)

lemma canonical_settings0: "canonical_settings settings0"
  by (simp add: canonical_settings_def valid_settings_def settings0_def in_range_def
        is_hex_color_default trimmed_def contains_ci_def prefix_ci_def)

lemma import_userData_bad:
  "import_userData E (JObj [(''pageSize'', unprintable)]) = Inl TypeError"
  using String_throws_unprintable
  by (simp add: import_userData_def Let_def getp_def mergeUserData_def coalesce_def
        normalizePageSize_throws unprintable_def)

text \<open>Claim C7, at the failing input: the import of that backup ends with a TypeError
  (raised by \<open>normalizePageSize\<close> while the user data are merged), which the caller reports
  as a failed import, and the settings have been replaced by the defaults.\<close>

theorem importBackup_partial:
  "importBackup E0 customised bad_backup =
     (Threw TypeError, customised\<lparr>settings := settings0\<lparr>hasCompletedSetup := JBool True\<rparr>\<rparr>) \<and>
   overlayOpacity (settings customised) = Fin (1 / 10) \<and>
   overlayOpacity (settings (snd (importBackup E0 customised bad_backup))) = Fin (2 / 5)"
proof -
  have d: "defaultSettings E0 = settings0" by (simp add: E0_def)
  have s: "import_settings E0 (settings customised) (JObj []) =
             Inr (Some (settings0\<lparr>hasCompletedSetup := JBool True\<rparr>))"
    using import_settings_empty[of E0 "settings customised"] canonical_settings0
    by (simp add: d customised_def)
  have "importBackup E0 customised bad_backup =
     (Threw TypeError, customised\<lparr>settings := settings0\<lparr>hasCompletedSetup := JBool True\<rparr>\<rparr>)"
    by (simp add: importBackup_def bad_backup_def getp_def Let_def s import_userData_bad)
  then show ?thesis
    by (simp add: customised_def settings0_def)
qed

theorem importBackup_partial_witness:
  "fst (importBackup E0 customised bad_backup) = Threw TypeError \<and>
   settings (snd (importBackup E0 customised bad_backup)) \<noteq> settings customised \<and>
   userData (snd (importBackup E0 customised bad_backup)) = userData customised"
  using importBackup_partial by (simp add: customised_def settings0_def)

subsection \<open>Page sizes the normalizer leaves as they are\<close>

lemma normalizePageSize_int:
  assumes "page_constants_ok E" and "MIN_PAGE_SIZE E \<le> k" and "k \<le> MAX_PAGE_SIZE E"
    and "PAGE_SIZE_STEP E dvd k"
  shows "normalizePageSize E (JNum (Fin (of_int k))) = Inr (Fin (of_int k))"
proof -
  let ?lo = "MIN_PAGE_SIZE E" and ?hi = "MAX_PAGE_SIZE E" and ?s = "PAGE_SIZE_STEP E"
  from assms(1) have ok: "?lo \<le> ?hi" "1 \<le> ?s"
    by (auto simp: page_constants_ok_def)
  have c: "clampNumber (JNum (Fin (of_int k))) (of_int ?lo) (of_int ?hi) fb = Inr (Fin (of_int k))" for fb
    using assms(2,3) by (simp add: clampNumber_def min_def max_def)
  have r: "\<lfloor>(of_int k :: rat) + 1 / 2\<rfloor> = k" by linarith
  from assms(4) obtain m where m: "k = ?s * m" by (auto simp: dvd_def)
  have "(of_int k :: rat) / of_int ?s = of_int m" using ok m by simp
  then have "\<lfloor>(of_int k :: rat) / of_int ?s + 1 / 2\<rfloor> = m" by (simp, linarith)
  then have st: "(of_int \<lfloor>(of_int k :: rat) / of_int ?s + 1 / 2\<rfloor> :: rat) * of_int ?s = of_int k"
    using m by simp
  show ?thesis
    using ok assms(2,3) by (simp add: normalizePageSize_def Let_def c r st min_def max_def)
qed

lemma normalizePageSize_id:
  assumes "page_constants_ok E" and "is_page_size E n"
  shows "normalizePageSize E (JNum n) = Inr n"
proof -
  from assms(2) obtain q where n: "n = Fin q" and q: "q = of_int \<lfloor>q\<rfloor>"
    and b: "MIN_PAGE_SIZE E \<le> \<lfloor>q\<rfloor>" "\<lfloor>q\<rfloor> \<le> MAX_PAGE_SIZE E" "PAGE_SIZE_STEP E dvd \<lfloor>q\<rfloor>"
    by (cases n) (auto simp: is_page_size_def)
  from normalizePageSize_int[OF assms(1) b] show ?thesis
    unfolding n using q by simp
qed

subsection \<open>Stale hidden ids\<close>

lemma hideApp_prunes:
  "anId \<noteq> [] \<Longrightarrow> set (hiddenAppIds (hideApp apps anId prev)) \<subseteq> appId ` set apps"
  using dedupeHiddenIds_members by (fastforce simp: hideApp_def Let_def)

lemma showApp_prunes:
  "anId \<noteq> [] \<Longrightarrow> set (hiddenAppIds (showApp apps anId prev)) \<subseteq> appId ` set apps"
  using dedupeHiddenIds_members by (fastforce simp: showApp_def Let_def)

lemma submitSettings_hidden:
  "submitSettings E form st = Inr st' \<Longrightarrow>
   hiddenAppIds (userData st') = hiddenAppIds (userData st) \<and>
   customApps (userData st') = customApps (userData st) \<and> baseCatalog st' = baseCatalog st"
  by (auto simp: submitSettings_def Let_def split: sum.splits)

text \<open>Claim C3, as amended. \<open>hideApp\<close> and \<open>showApp\<close>, run with an id that is not empty, leave
  only ids of the merged collection they are run with among the hidden ids, and
  \<open>removeCustomApp\<close> takes the removed id out. The hidden ids are not touched when the merge
  is computed anew: a new catalog and \<open>submitSettings\<close> (which can set \<open>hideDefaultApps\<close>)
  leave them as they are.\<close>

theorem hidden_ids_pruned_by_actions:
  "(anId \<noteq> [] \<longrightarrow>
      set (hiddenAppIds (hideApp apps anId prev)) \<subseteq> appId ` set apps \<and>
      set (hiddenAppIds (showApp apps anId prev)) \<subseteq> appId ` set apps) \<and>
   anId \<notin> set (hiddenAppIds (removeCustomApp anId prev)) \<and>
   hiddenAppIds (userData (st\<lparr>baseCatalog := catalog\<rparr>)) = hiddenAppIds (userData st) \<and>
   (submitSettings E form st = Inr st' \<longrightarrow>
      hiddenAppIds (userData st') = hiddenAppIds (userData st))"
  using hideApp_prunes[of anId apps prev] showApp_prunes[of anId apps prev]
    submitSettings_hidden[of E form st st']
  by (simp add: removeCustomApp_def)

lemma merged_docs_loaded:
  "merged (sortAppsByName (\<lambda>s. s)) (\<lambda>i. 0) docs_loaded = [docs\<lparr>appId := ''app-docs'', origin := Some Catalog\<rparr>]"
  by (simp add: merged_def docs_loaded_def init0_def settings0_def userData0_def catalogApps_def
        ensureUniqueAppIds_def sortAppsByName_def docs_def slug_Docs trim_def)

lemma hide_docs:
  "hideApp (merged (sortAppsByName (\<lambda>s. s)) (\<lambda>i. 0) docs_loaded) ''app-docs'' (userData docs_loaded)
     = userData0\<lparr>hiddenAppIds := [''app-docs'']\<rparr>"
  unfolding merged_docs_loaded
  by (simp add: hideApp_def docs_loaded_def init0_def userData0_def Set_from_def Set_add_def
        dedupeHiddenIds_def trim_def is_ws_def)

lemma submit_hide_defaults:
  "submitSettings E0 hide_defaults_form docs_hidden = Inr stale_state"
proof -
  have p: "normalizePageSize E0 (JNum (Fin 28)) = Inr (Fin 28)"
    using normalizePageSize_int[OF page_constants_ok_E0, of 28] by (simp add: E0_def)
  have n: "clampNumber (JNum (Fin (2 / 5))) 0 (3 / 5) fb = Inr (Fin (2 / 5))"
    "clampNumber (JNum (Fin 8)) 0 20 fb = Inr (Fin 8)"
    "clampNumber (JNum (Fin (2 / 5))) (1 / 20) (19 / 20) fb = Inr (Fin (2 / 5))" for fb
    by (simp_all add: clampNumber_def)
  define partial where "partial =
                [(''backgroundType'', of_bgtype BgImage),
                 (''backgroundImage'', JStr []),
                 (''backgroundColor'', JStr ''#0f172a''),
                 (''overlayOpacity'', JNum (Fin (2 / 5))),
                 (''blurStrength'', JNum (Fin 8)),
                 (''glassTintColor'', JStr ''#0f172a''),
                 (''glassTintOpacity'', JNum (Fin (2 / 5))),
                 (''hasCompletedSetup'', JBool True),
                 (''hideDefaultApps'', JBool True),
                 (''mobileLayout'', of_layout LayoutGrid)]"
  have g: "getp partial ''overlayOpacity'' = JNum (Fin (2 / 5))"
    "getp partial ''blurStrength'' = JNum (Fin 8)"
    "getp partial ''glassTintOpacity'' = JNum (Fin (2 / 5))"
    "getp partial ''backgroundColor'' = JStr ''#0f172a''"
    "getp partial ''glassTintColor'' = JStr ''#0f172a''"
    "getp partial ''backgroundImage'' = JStr []"
    "getp partial ''backgroundType'' = JStr ''image''"
    "getp partial ''hideDefaultApps'' = JBool True"
    "getp partial ''mobileLayout'' = JStr ''grid''"
    "map_of partial ''hasCompletedSetup'' = Some (JBool True)"
    by (simp_all add: partial_def getp_def of_bgtype_def of_layout_def)
  have u: "updateSettingsFromForm E0 settings0 partial
        = Inr (settings0\<lparr>hideDefaultApps := Some True, hasCompletedSetup := JBool True\<rparr>)"
    unfolding updateSettingsFromForm_def g n resolveHexColor_id[OF is_hex_color_default]
    by (simp add: sanitizeBackgroundImage_def trim_Nil coalesce_def settings0_def)
  show ?thesis
    unfolding submitSettings_def
    by (simp add: hide_defaults_form_def docs_hidden_def docs_loaded_def init0_def
          u[unfolded partial_def] p stale_state_def Let_def userData0_def)
qed

lemma reachable_stale_state: "reachable (sortAppsByName (\<lambda>s. s)) E0 stale_state"
proof -
  have "reachable (sortAppsByName (\<lambda>s. s)) E0 init0"
    using reachable.initial[of "sortAppsByName (\<lambda>s. s)" E0] by (simp add: init0_def E0_def)
  then have "reachable (sortAppsByName (\<lambda>s. s)) E0 docs_loaded"
    unfolding docs_loaded_def by (rule reachable.catalog_loaded)
  then have "reachable (sortAppsByName (\<lambda>s. s)) E0
      (docs_loaded\<lparr>userData := hideApp (merged (sortAppsByName (\<lambda>s. s)) (\<lambda>i. 0) docs_loaded) ''app-docs'' (userData docs_loaded)\<rparr>)"
    by (rule reachable.hide)
  then have "reachable (sortAppsByName (\<lambda>s. s)) E0 docs_hidden"
    by (simp add: hide_docs docs_hidden_def)
  then show ?thesis
    using submit_hide_defaults by (rule reachable.submit_settings)
qed

text \<open>Claim C3 as stated fails: that state is reachable, the id \<open>app-docs\<close> is among its
  hidden ids, and its merged collection is empty.\<close>

theorem stale_hidden_id_counterexample:
  "reachable (sortAppsByName (\<lambda>s. s)) E0 stale_state \<and>
   ''app-docs'' \<in> set (hiddenAppIds (userData stale_state)) \<and>
   merged (sortAppsByName (\<lambda>s. s)) (\<lambda>i. 0) stale_state = [] \<and>
   \<not> set (hiddenAppIds (userData stale_state)) \<subseteq> appId ` set (merged (sortAppsByName (\<lambda>s. s)) (\<lambda>i. 0) stale_state)"
proof -
  have m: "merged (sortAppsByName (\<lambda>s. s)) (\<lambda>i. 0) stale_state = []"
    by (simp add: merged_def stale_state_def catalogApps_def userData0_def ensureUniqueAppIds_def
          sortAppsByName_def)
  show ?thesis
    using reachable_stale_state by (simp add: m) (simp add: stale_state_def)
qed

theorem hidden_ids_pruned_by_actions_witness:
  "set (hiddenAppIds (hideApp [app_a] ''ghost'' \<lparr>hiddenAppIds = [''gone'', ''a''], customApps = [], pageSize = None\<rparr>))
      \<subseteq> appId ` set [app_a] \<and>
   hiddenAppIds (hideApp [app_a] ''ghost'' \<lparr>hiddenAppIds = [''gone'', ''a''], customApps = [], pageSize = None\<rparr>) = [''a''] \<and>
   submitSettings E0 hide_defaults_form docs_hidden = Inr stale_state \<and>
   hiddenAppIds (userData stale_state) = hiddenAppIds (userData docs_hidden)"
  using hidden_ids_pruned_by_actions[where anId = "''ghost''" and apps = "[app_a]"
      and prev = "\<lparr>hiddenAppIds = [''gone'', ''a''], customApps = [], pageSize = None\<rparr>"
      and st = docs_hidden and E = E0 and form = hide_defaults_form and st' = stale_state]
    submit_hide_defaults
  by (simp add: hideApp_def Set_from_def Set_add_def dedupeHiddenIds_def app_a_def trim_def is_ws_def)

subsection \<open>The backup round trip\<close>

lemma has_scheme_http:
  "has_scheme (''http://'' @ r)" "has_scheme (''https://'' @ r)"
  by (simp_all add: has_scheme_def is_alpha_def is_scheme_char_def is_digit_def)

lemma sanitizeHttpUrl_id:
  assumes "canonical_url E u"
  shows "sanitizeHttpUrl E (JStr u) = u"
proof -
  from assms have t: "trim u = u" by (simp add: canonical_url_def trim_id)
  from assms obtain r where "u = ''http://'' @ r \<or> u = ''https://'' @ r"
    by (auto simp: canonical_url_def prefix_def)
  then have p: "u \<noteq> []" "\<not> prefix_ci ''javascript:'' u" "\<not> prefix ''//'' u" "has_scheme u"
    using has_scheme_http[of r]
    by (auto simp: prefix_ci_def ascii_lower_def char_of_eq_iff char_eq_char_of)
  from assms obtain parsed where "new_URL E u = Some parsed" "href parsed = u"
    "protocol parsed = ''http:'' \<or> protocol parsed = ''https:''"
    by (auto simp: canonical_url_def split: option.splits)
  with t p show ?thesis
    by (auto simp: sanitizeHttpUrl_def Let_def)
qed

lemma sanitizeIconSource_id:
  assumes "trimmed (DEFAULT_ICON E)" and "canonical_icon E i"
  shows "sanitizeIconSource E (JStr i) = i"
proof (cases "i = DEFAULT_ICON E")
  case True
  with assms(1) have "trim i = i" by (simp add: trim_id)
  with True show ?thesis by (simp add: sanitizeIconSource_def Let_def)
next
  case False
  with assms(2) have "trimmed i" "i \<noteq> []" "\<not> prefix_ci ''javascript:'' i" "accepted_icon i"
    by (simp_all add: canonical_icon_def)
  then show ?thesis
    by (simp add: sanitizeIconSource_def Let_def trim_id accepted_icon_def)
qed

lemma sanitizeTagList_id:
  assumes "list_all (\<lambda>t. trimmed t \<and> t \<noteq> []) ts"
  shows "sanitizeTagList E (JArr (map JStr ts)) = Inr ts"
proof -
  have a: "\<not> list_ex (\<lambda>t. String_throws (coalesce t (JStr []))) (map JStr ts)"
    by (simp add: list_ex_iff coalesce_def)
  have "map (\<lambda>t. trim (String_of (Number_toString E) (coalesce t (JStr [])))) (map JStr ts) = ts"
    using assms by (induction ts) (simp_all add: coalesce_def trim_id)
  moreover have "filter (\<lambda>t. length t > 0) ts = ts"
    using assms by (induction ts) simp_all
  ultimately show ?thesis
    using a by (simp add: sanitizeTagList_def)
qed

lemma getp_obj_of_app:
  "getp (props (obj_of_app a)) ''id'' = JStr (appId a)"
  "getp (props (obj_of_app a)) ''name'' = JStr (name a)"
  "getp (props (obj_of_app a)) ''description'' = JStr (description a)"
  "getp (props (obj_of_app a)) ''url'' = JStr (url a)"
  "getp (props (obj_of_app a)) ''icon'' = JStr (icon a)"
  "getp (props (obj_of_app a)) ''tags'' = JArr (map JStr (tags a))"
  by (simp_all add: obj_of_app_def getp_def)

lemma sanitizeAppRecord_id:
  assumes "trimmed (DEFAULT_ICON E)" and "canonical_app E a"
  shows "sanitizeAppRecord E (obj_of_app a) Custom = Inr (Some a)"
proof -
  from assms(2) have c: "trimmed (appId a)" "trimmed (name a)" "name a \<noteq> []" "trimmed (description a)"
    "canonical_url E (url a)" "canonical_icon E (icon a)"
    "list_all (\<lambda>t. trimmed t \<and> t \<noteq> []) (tags a)" "origin a = Some Custom"
    by (simp_all add: canonical_app_def)
  from c(5) have u: "url a \<noteq> []" by (auto simp: canonical_url_def)
  have o: "truthy (obj_of_app a)" "is_object (obj_of_app a)" by (simp_all add: obj_of_app_def)
  have "sanitizeAppRecord E (obj_of_app a) Custom =
      Inr (Some \<lparr>appId = appId a, name = name a, description = description a, url = url a,
                 icon = icon a, tags = tags a, origin = Some Custom\<rparr>)"
    unfolding sanitizeAppRecord_def
    using o u c(3)
    by (simp add: Let_def str_field_def getp_obj_of_app trim_id c(1,2,4)
          sanitizeHttpUrl_id[OF c(5)] sanitizeIconSource_id[OF assms(1) c(6)]
          sanitizeTagList_id[OF c(7)])
  then show ?thesis using c(8) by simp
qed

lemma sanitize_entries_id:
  assumes "trimmed (DEFAULT_ICON E)" and "list_all (canonical_app E) apps"
  shows "sanitize_entries E (map obj_of_app apps) = Inr apps"
  using assms(2) by (induction apps) (simp_all add: sanitizeAppRecord_id[OF assms(1)])

lemma Set_from_distinct: "distinct xs \<Longrightarrow> Set_from xs = xs"
  by (simp add: Set_from_def distinct_remdups_id)

lemma import_hiddenIds_id:
  assumes "list_all (\<lambda>i. trimmed i \<and> i \<noteq> []) ids" and "distinct ids"
  shows "import_hiddenIds (map JStr ids) = ids"
proof -
  have "map (\<lambda>v. case v of JStr s \<Rightarrow> trim s | _ \<Rightarrow> []) (map JStr ids) = ids"
    using assms(1) by (induction ids) (simp_all add: trim_id)
  moreover have "filter (\<lambda>i. length i > 0) ids = ids"
    using assms(1) by (induction ids) simp_all
  ultimately show ?thesis
    using assms(2) by (simp add: import_hiddenIds_def Set_from_distinct)
qed

lemma import_userData_canonical:
  assumes "env_ok E" and "canonical_userData E u"
  shows "import_userData E (JObj (obj_of_userData u)) = Inr (Some u)"
proof -
  from assms(1) have e: "page_constants_ok E" "trimmed (DEFAULT_ICON E)" by (simp_all add: env_ok_def)
  from assms(2) obtain n where n: "pageSize u = Some n" "is_page_size E n"
    and h: "list_all (\<lambda>i. trimmed i \<and> i \<noteq> []) (hiddenAppIds u)" "distinct (hiddenAppIds u)"
    and a: "list_all (canonical_app E) (customApps u)"
    by (auto simp: canonical_userData_def split: option.splits)
  have g: "getp (obj_of_userData u) ''customApps'' = JArr (map obj_of_app (customApps u))"
    "getp (obj_of_userData u) ''hiddenAppIds'' = JArr (map JStr (hiddenAppIds u))"
    "getp (obj_of_userData u) ''pageSize'' = JNum n"
    by (simp_all add: obj_of_userData_def getp_def opt_prop_def of_num_opt_def n)
  have "import_userData E (JObj (obj_of_userData u)) =
      Inr (Some \<lparr>hiddenAppIds = hiddenAppIds u, customApps = customApps u, pageSize = Some n\<rparr>)"
    by (simp add: import_userData_def Let_def g sanitize_entries_id[OF e(2) a]
          import_hiddenIds_id[OF h] mergeUserData_def coalesce_def
          normalizePageSize_id[OF e(1) n(2)])
  then show ?thesis using n(1) by simp
qed

text \<open>Claim C8. For a valid state, importing the payload that \<open>exportBackup\<close> builds of it
  succeeds and gives the same state back: settings and user data are unchanged.\<close>

theorem export_import_roundtrip:
  assumes "env_ok E" and "valid_state E st"
  shows "importBackup E st (exportBackup_payload E generatedAt st) =
           (Returned True ''Imported settings and app data successfully.'', st)"
proof -
  from assms(2) have s: "canonical_settings (settings st)" and u: "canonical_userData E (userData st)"
    by (simp_all add: valid_state_def)
  show ?thesis
    by (simp add: importBackup_def exportBackup_payload_def getp_def Let_def
          import_settings_canonical[OF s] import_userData_canonical[OF assms(1) u])
qed

lemma env_ok_E0: "env_ok E0"
  using page_constants_ok_E0 by (simp add: env_ok_def) (simp add: E0_def trimmed_def is_ws_def)

lemma valid_backup_state: "valid_state E0 backup_state"
proof -
  have "canonical_settings (settings0\<lparr>hasCompletedSetup := JBool True\<rparr>)"
    using canonical_settings0 by (simp add: canonical_settings_def valid_settings_def)
  moreover have "canonical_url E0 ''https://example.com/''"
    by (simp add: canonical_url_def E0_def URL0_def trimmed_def is_ws_def)
  moreover have "canonical_icon E0 ''/icons/default.svg''"
    by (simp add: canonical_icon_def E0_def)
  moreover have "trimmed ''custom-docs''" "trimmed ''Docs''" "trimmed []"
    by (simp_all add: trimmed_def is_ws_def)
  moreover have "is_page_size E0 (Fin 28)"
    by (simp add: is_page_size_def E0_def)
  ultimately show ?thesis
    by (simp add: valid_state_def backup_state_def canonical_userData_def hidden_docs_def
          canonical_app_def)
qed

theorem export_import_roundtrip_witness:
  "env_ok E0 \<and> valid_state E0 backup_state \<and>
   importBackup E0 backup_state (exportBackup_payload E0 ''2026-01-01T00:00:00.000Z'' backup_state) =
     (Returned True ''Imported settings and app data successfully.'', backup_state)"
  using export_import_roundtrip[OF env_ok_E0 valid_backup_state, of "''2026-01-01T00:00:00.000Z''"]
    env_ok_E0 valid_backup_state
  by simp

end
